theory Spec2Isabelle
  imports Main "HOL-Library.Word" "HOL-Library.Signed_Division"
begin

unbundle bit_operations_syntax

section \<open>Machine types\<close>

type_synonym u8 = "8 word"
type_synonym u32 = "32 word"
type_synonym u64 = "64 word"

section \<open>Tiled texel addressing (\<open>DumpTexture\<close>, debug\_utils.cpp)\<close>

text \<open>
  The inner loop of \<open>DumpTexture\<close> (lines 407--415): three iterations over
  \<open>block_size_index\<close>, each adding \<open>(x & w) << i\<close> and twice \<open>(y & h) << i\<close>
  with \<open>w = h = 1 << i\<close>. The coordinates are C \<open>int\<close>s; for the coordinates of a
  texture the accumulated value stays below 64, so no 32-bit operation wraps and the
  integers are modelled by \<open>int\<close>.
\<close>

function texel_loop :: "int \<Rightarrow> int \<Rightarrow> nat \<Rightarrow> int \<Rightarrow> int" where
  "texel_loop x y block_size_index texel_index_within_tile =
     (if block_size_index < 3 then
        (let sub_tile_width = push_bit block_size_index (1::int);
             sub_tile_height = push_bit block_size_index (1::int);
             sub_tile_index = push_bit block_size_index (x AND sub_tile_width);
             sub_tile_index = sub_tile_index + 2 * push_bit block_size_index (y AND sub_tile_height)
         in texel_loop x y (block_size_index + 1) (texel_index_within_tile + sub_tile_index))
      else texel_index_within_tile)"
  by pat_completeness auto
termination
  by (relation "measure (\<lambda>(x, y, i, acc). 3 - i)") auto

declare texel_loop.simps [simp del]

text \<open>\<open>int texel_index_within_tile = 0; for (int block_size_index = 0; ...)\<close>\<close>

definition texel_index_within_tile :: "int \<Rightarrow> int \<Rightarrow> int" where
  "texel_index_within_tile x y = texel_loop x y 0 0"

text \<open>
  The picture in the comment above the loop (lines 399--406), top row first: the index
  of every texel of an 8x8 tile.
\<close>

definition tile_picture :: "int list list" where
  "tile_picture =
     [[42, 43, 46, 47, 58, 59, 62, 63],
      [40, 41, 44, 45, 56, 57, 60, 61],
      [34, 35, 38, 39, 50, 51, 54, 55],
      [32, 33, 36, 37, 48, 49, 52, 53],
      [10, 11, 14, 15, 26, 27, 30, 31],
      [ 8,  9, 12, 13, 24, 25, 28, 29],
      [ 2,  3,  6,  7, 18, 19, 22, 23],
      [ 0,  1,  4,  5, 16, 17, 20, 21]]"

text \<open>
  The byte offset of texel \<open>(x, y)\<close> from \<open>data\<close> (lines 417--423), for a texture
  \<open>width\<close> texels wide and 3 bytes per texel. The loops run \<open>x\<close> and \<open>y\<close> from 0, where
  C's truncating \<open>/\<close> is \<open>div\<close>. \<open>row_stride\<close> is a \<open>u32\<close>, so the stride and the sum
  it enters are computed modulo \<open>2 ^ 32\<close>.
\<close>

definition source_offset :: "int \<Rightarrow> int \<Rightarrow> int \<Rightarrow> int" where
  "source_offset width x y =
     (let row_stride = (width * 3) mod 2 ^ 32;
          block_width = 8;
          block_height = 8;
          coarse_x = (x div block_width) * block_width;
          coarse_y = (y div block_height) * block_height
      in (coarse_x * block_height * 3 + coarse_y * row_stride + texel_index_within_tile x y * 3)
           mod 2 ^ 32)"

text \<open>
  The coordinates in the order the two loops of \<open>DumpTexture\<close> visit them
  (\<open>y\<close> outside, \<open>x\<close> inside).
\<close>

definition loop_coords :: "int \<Rightarrow> int \<Rightarrow> (int \<times> int) list" where
  "loop_coords width height =
     concat (map (\<lambda>y. map (\<lambda>x. (x, y)) [0..width - 1]) [0..height - 1])"

text \<open>
  Reading the addressing in the opposite copy direction: the texel whose native offset
  is \<open>off\<close>, found by running the same addressing function over the image.
\<close>

definition decode_offset :: "int \<Rightarrow> int \<Rightarrow> int \<Rightarrow> (int \<times> int) option" where
  "decode_offset width height off =
     find (\<lambda>(x, y). source_offset width x y = off) (loop_coords width height)"

section \<open>Program state of the debug utilities\<close>

text \<open>
  \<open>PicaTrace\<close> is declared in debug\_utils.h; this file uses one member, the vector
  \<open>writes\<close>, and appends \<open>{id, value}\<close> pairs to it.
\<close>

record PicaTrace =
  writes :: "(u32 \<times> u32) list"

text \<open>
  The statics of debug\_utils.cpp and what its functions can touch outside themselves:
  \<open>pica_trace\<close> (a \<open>unique_ptr\<close>, null when \<open>None\<close>), \<open>is_pica_tracing\<close> (an \<open>int\<close>
  that only ever holds \<open>true\<close> or \<open>false\<close>), the two function-local static counters
  \<open>dump_index\<close>, the lines written by \<open>ERROR_LOG\<close> and the files on disk. The mutex
  \<open>pica_trace_mutex\<close> orders accesses of different threads; the model is of one thread
  calling the functions one after the other, where locking and unlocking change nothing.
\<close>

record program_state =
  pica_trace :: "PicaTrace option"
  is_pica_tracing :: bool
  shader_dump_index :: int
  texture_dump_index :: int
  error_log :: "string list"
  files :: "string \<rightharpoonup> u8 list"

text \<open>The state at program start: the statics as their initialisers leave them.\<close>

definition initial_state :: program_state where
  "initial_state =
     \<lparr>pica_trace = None, is_pica_tracing = False, shader_dump_index = 0,
      texture_dump_index = 0, error_log = [], files = Map.empty\<rparr>"

text \<open>\<open>ERROR_LOG(GPU, fmt, ...)\<close>: one more line in the log, recorded by its format string.\<close>

definition ERROR_LOG :: "string \<Rightarrow> program_state \<Rightarrow> program_state" where
  "ERROR_LOG fmt s = s\<lparr>error_log := error_log s @ [fmt]\<rparr>"

section \<open>Register-write tracing (debug\_utils.cpp, lines 271--323)\<close>

definition StartPicaTracing :: "program_state \<Rightarrow> program_state" where
  "StartPicaTracing s =
     (if is_pica_tracing s then
        ERROR_LOG ''StartPicaTracing called even though tracing already running!'' s
      else s\<lparr>pica_trace := Some \<lparr>writes = []\<rparr>, is_pica_tracing := True\<rparr>)"

definition IsPicaTracing :: "program_state \<Rightarrow> bool" where
  "IsPicaTracing s = is_pica_tracing s"

text \<open>
  \<open>pica_trace->writes.push_back\<close> dereferences the pointer; on a null pointer the call
  has no defined result, which the model reports as a fault.
\<close>

datatype fault = NullPointerDereference

definition OnPicaRegWrite :: "u32 \<Rightarrow> u32 \<Rightarrow> program_state \<Rightarrow> fault + program_state" where
  "OnPicaRegWrite id' val s =
     (if \<not> is_pica_tracing s then Inr s
      else if \<not> is_pica_tracing s then Inr s
      else (case pica_trace s of
              None \<Rightarrow> Inl NullPointerDereference
            | Some t \<Rightarrow> Inr (s\<lparr>pica_trace := Some (t\<lparr>writes := writes t @ [(id', val)]\<rparr>)\<rparr>)))"

text \<open>
  \<open>FinishPicaTracing\<close> returns the pointer it moves out of \<open>pica_trace\<close>, which is left
  null; on misuse it returns an empty pointer.
\<close>

definition FinishPicaTracing :: "program_state \<Rightarrow> PicaTrace option \<times> program_state" where
  "FinishPicaTracing s =
     (if \<not> is_pica_tracing s then
        (None, ERROR_LOG ''FinishPicaTracing called even though tracing already running!'' s)
      else (pica_trace s, s\<lparr>is_pica_tracing := False, pica_trace := None\<rparr>))"

text \<open>A sequence of \<open>OnPicaRegWrite\<close> calls, one per \<open>(id, value)\<close> pair, in order.\<close>

fun OnPicaRegWrites :: "(u32 \<times> u32) list \<Rightarrow> program_state \<Rightarrow> fault + program_state" where
  "OnPicaRegWrites [] s = Inr s"
| "OnPicaRegWrites ((id', val) # ws) s =
     (case OnPicaRegWrite id' val s of
        Inl f \<Rightarrow> Inl f
      | Inr s' \<Rightarrow> OnPicaRegWrites ws s')"

section \<open>Geometry dumper (debug\_utils.cpp, lines 25--42)\<close>

text \<open>
  \<open>TriangleTopology\<close> is declared in pica.h; \<open>AddVertex\<close> names two of its
  enumerators and sends every other value to the \<open>default\<close> branch.
\<close>

datatype TriangleTopology =
  TriangleTopology_List | TriangleTopology_ListIndexed | TriangleTopology_Other int

text \<open>
  A vertex is three floats, a face three \<open>int\<close> indices. Nothing here computes with
  the floats, so their type is a parameter.
\<close>

record 'f GeometryDumper =
  vertices :: "('f \<times> 'f \<times> 'f) list"
  faces :: "(int \<times> int \<times> int) list"

definition new_GeometryDumper :: "'f GeometryDumper" where
  "new_GeometryDumper = \<lparr>vertices = [], faces = []\<rparr>"

text \<open>\<open>ERROR_LOG\<close> followed by \<open>exit(0)\<close>: the process ends with the line logged and the status.\<close>

datatype process_exit = ProcessExit string int

text \<open>
  \<open>int num_vertices = vertices.size()\<close> converts a \<open>size_t\<close> to a 32-bit \<open>int\<close>:
  the low 32 bits, read as two's complement. \<open>%\<close> truncates towards zero (\<open>smod\<close>).
\<close>

definition AddVertex ::
  "'f \<times> 'f \<times> 'f \<Rightarrow> TriangleTopology \<Rightarrow> 'f GeometryDumper \<Rightarrow> process_exit + 'f GeometryDumper"
where
  "AddVertex pos topology d =
     (let d = d\<lparr>vertices := vertices d @ [(fst pos, fst (snd pos), snd (snd pos))]\<rparr>;
          num_vertices = sint (word_of_nat (length (vertices d)) :: 32 word);
          list_case =
            (if 0 = num_vertices smod 3
             then d\<lparr>faces := faces d @ [(num_vertices - 3, num_vertices - 2, num_vertices - 1)]\<rparr>
             else d)
      in case topology of
           TriangleTopology_List \<Rightarrow> Inr list_case
         | TriangleTopology_ListIndexed \<Rightarrow> Inr list_case
         | TriangleTopology_Other v \<Rightarrow> Inl (ProcessExit ''Unknown triangle topology %x'' 0))"

text \<open>A sequence of \<open>AddVertex\<close> calls; the process stops at the first \<open>exit\<close>.\<close>

fun AddVertices ::
  "(('f \<times> 'f \<times> 'f) \<times> TriangleTopology) list \<Rightarrow> 'f GeometryDumper
     \<Rightarrow> process_exit + 'f GeometryDumper"
where
  "AddVertices [] d = Inr d"
| "AddVertices ((pos, topology) # calls) d =
     (case AddVertex pos topology d of
        Inl e \<Rightarrow> Inl e
      | Inr d' \<Rightarrow> AddVertices calls d')"

section \<open>Shader-dump headers (debug\_utils.cpp, lines 67--125)\<close>

text \<open>
  A struct declaration is the list of its members in declaration order, each with its
  type; the three headers only have members of these types (\<open>ShaderType\<close> is an
  \<open>enum class : u8\<close>).
\<close>

datatype field_type = U8 | U16 | U32

fun sizeof :: "field_type \<Rightarrow> nat" where
  "sizeof U8 = 1"
| "sizeof U16 = 2"
| "sizeof U32 = 4"

type_synonym struct_decl = "(string \<times> field_type) list"

definition DVLBHeader :: struct_decl where
  "DVLBHeader = [(''magic_word'', U32), (''num_programs'', U32)]"

definition DVLPHeader :: struct_decl where
  "DVLPHeader =
     [(''magic_word'', U32), (''version'', U32), (''binary_offset'', U32),
      (''binary_size_words'', U32), (''swizzle_patterns_offset'', U32),
      (''swizzle_patterns_num_entries'', U32), (''unk2'', U32)]"

definition DVLEHeader :: struct_decl where
  "DVLEHeader =
     [(''magic_word'', U32), (''pad1'', U16), (''type'', U8), (''pad2'', U8),
      (''main_offset_words'', U32), (''endmain_offset_words'', U32),
      (''pad3'', U32), (''pad4'', U32),
      (''constant_table_offset'', U32), (''constant_table_size'', U32),
      (''label_table_offset'', U32), (''label_table_size'', U32),
      (''output_register_table_offset'', U32), (''output_register_table_size'', U32),
      (''uniform_table_offset'', U32), (''uniform_table_size'', U32),
      (''symbol_table_offset'', U32), (''symbol_table_size'', U32)]"

definition DVLBHeader_MAGIC_WORD :: u32 where
  "DVLBHeader_MAGIC_WORD = 0x424C5644"

definition DVLPHeader_MAGIC_WORD :: u32 where
  "DVLPHeader_MAGIC_WORD = 0x504C5644"

definition DVLEHeader_MAGIC_WORD :: u32 where
  "DVLEHeader_MAGIC_WORD = 0x454c5644"

text \<open>
  The layout of a struct of scalar members under \<open>#pragma pack(n)\<close>: each member
  starts at the next multiple of its alignment, which is its size capped by \<open>n\<close>; the
  struct's size is the end of the last member rounded up to the largest member
  alignment. The three headers are declared under \<open>#pragma pack(1)\<close>.
\<close>

definition align_up :: "nat \<Rightarrow> nat \<Rightarrow> nat" where
  "align_up a n = ((n + a - 1) div a) * a"

fun field_offsets :: "nat \<Rightarrow> nat \<Rightarrow> struct_decl \<Rightarrow> (string \<times> nat) list" where
  "field_offsets pack off [] = []"
| "field_offsets pack off ((name, ty) # members) =
     (let start = align_up (min pack (sizeof ty)) off
      in (name, start) # field_offsets pack (start + sizeof ty) members)"

fun end_of_fields :: "nat \<Rightarrow> nat \<Rightarrow> struct_decl \<Rightarrow> nat" where
  "end_of_fields pack off [] = off"
| "end_of_fields pack off ((name, ty) # members) =
     end_of_fields pack (align_up (min pack (sizeof ty)) off + sizeof ty) members"

definition struct_alignment :: "nat \<Rightarrow> struct_decl \<Rightarrow> nat" where
  "struct_alignment pack members = fold max (map (\<lambda>(name, ty). min pack (sizeof ty)) members) 1"

definition sizeof_struct :: "nat \<Rightarrow> struct_decl \<Rightarrow> nat" where
  "sizeof_struct pack members =
     align_up (struct_alignment pack members) (end_of_fields pack 0 members)"

text \<open>
  The memory image of a value of \<open>n\<close> bytes, lowest byte first, of a struct declared
  under \<open>#pragma pack(1)\<close> (given the values of its members in order), and the bytes
  of an ASCII string.
\<close>

definition le_bytes :: "nat \<Rightarrow> nat \<Rightarrow> u8 list" where
  "le_bytes n v = map (\<lambda>i. word_of_nat (v div 256 ^ i)) [0..<n]"

definition struct_bytes :: "struct_decl \<Rightarrow> nat list \<Rightarrow> u8 list" where
  "struct_bytes decl vals = concat (map (\<lambda>((name, ty), v). le_bytes (sizeof ty) v) (zip decl vals))"

definition ascii :: "string \<Rightarrow> u8 list" where
  "ascii cs = map (\<lambda>c. of_char c) cs"

section \<open>Function bodies with an early \<open>return\<close>\<close>

text \<open>
  \<open>DumpShader\<close> and \<open>DumpTexture\<close> are statement sequences whose first statement
  is an unconditional \<open>return\<close>. A body is a list of statements run in order on the
  program state; \<open>Return\<close> leaves the function with the state as it is.
\<close>

datatype 's stmt = Return | Do "'s \<Rightarrow> 's"

fun run_body :: "'s stmt list \<Rightarrow> 's \<Rightarrow> 's" where
  "run_body [] s = s"
| "run_body (Return # rest) s = s"
| "run_body (Do f # rest) s = run_body rest (f s)"

text \<open>\<open>std::to_string\<close> of an \<open>int\<close>: decimal digits, with a minus sign below zero.\<close>

function decimal :: "nat \<Rightarrow> string" where
  "decimal n = (if n < 10 then [char_of (48 + n)] else decimal (n div 10) @ [char_of (48 + n mod 10)])"
  by pat_completeness auto
termination
  by (relation "measure (\<lambda>n. n)") auto

declare decimal.simps [simp del]

definition to_string :: "int \<Rightarrow> string" where
  "to_string i = (if i < 0 then ''-'' @ decimal (nat (- i)) else decimal (nat i))"

section \<open>\<open>DumpShader\<close> (debug\_utils.cpp, lines 127--269)\<close>

text \<open>
  \<open>Regs::VSOutputAttributes\<close> is declared in pica.h: four semantics per output
  register. The enumerators are the ones \<open>DumpShader\<close> names; any other value of the
  register field is \<open>Semantic_Other\<close>.
\<close>

datatype Semantic =
  POSITION_X | POSITION_Y | POSITION_Z | POSITION_W
| COLOR_R | COLOR_G | COLOR_B | COLOR_A
| TEXCOORD0_U | TEXCOORD0_V | TEXCOORD1_U | TEXCOORD1_V | TEXCOORD2_U | TEXCOORD2_V
| INVALID | Semantic_Other nat

record VSOutputAttributes =
  map_x :: Semantic
  map_y :: Semantic
  map_z :: Semantic
  map_w :: Semantic

datatype OutputRegisterInfo_Type = POSITION | COLOR | TEXCOORD0 | TEXCOORD1 | TEXCOORD2

fun Type_value :: "OutputRegisterInfo_Type \<Rightarrow> nat" where
  "Type_value POSITION = 0"
| "Type_value COLOR = 2"
| "Type_value TEXCOORD0 = 3"
| "Type_value TEXCOORD1 = 5"
| "Type_value TEXCOORD2 = 6"

text \<open>
  The union \<open>OutputRegisterInfo\<close>: a 64-bit word with the bit fields \<open>type\<close> (bits
  0--15), \<open>id\<close> (bits 16--31) and \<open>component_mask\<close> (bits 32--35).
\<close>

record OutputRegisterInfo =
  info_type :: OutputRegisterInfo_Type
  info_id :: nat
  component_mask :: nat

definition hex :: "OutputRegisterInfo \<Rightarrow> nat" where
  "hex info =
     Type_value (info_type info) + 2 ^ 16 * (info_id info mod 2 ^ 16)
       + 2 ^ 32 * (component_mask info mod 2 ^ 4)"

text \<open>The local \<open>std::map\<close>; \<open>map.at\<close> throws \<open>std::out_of_range\<close> where this is \<open>None\<close>.\<close>

fun semantic_map :: "Semantic \<Rightarrow> (OutputRegisterInfo_Type \<times> nat) option" where
  "semantic_map POSITION_X = Some (POSITION, 1)"
| "semantic_map POSITION_Y = Some (POSITION, 2)"
| "semantic_map POSITION_Z = Some (POSITION, 4)"
| "semantic_map POSITION_W = Some (POSITION, 8)"
| "semantic_map COLOR_R = Some (COLOR, 1)"
| "semantic_map COLOR_G = Some (COLOR, 2)"
| "semantic_map COLOR_B = Some (COLOR, 4)"
| "semantic_map COLOR_A = Some (COLOR, 8)"
| "semantic_map TEXCOORD0_U = Some (TEXCOORD0, 1)"
| "semantic_map TEXCOORD0_V = Some (TEXCOORD0, 2)"
| "semantic_map TEXCOORD1_U = Some (TEXCOORD1, 1)"
| "semantic_map TEXCOORD1_V = Some (TEXCOORD1, 2)"
| "semantic_map TEXCOORD2_U = Some (TEXCOORD2, 1)"
| "semantic_map TEXCOORD2_V = Some (TEXCOORD2, 2)"
| "semantic_map INVALID = None"
| "semantic_map (Semantic_Other v) = None"

text \<open>\<open>std::find_if\<close> followed by the update of the element found, or \<open>None\<close> at \<open>end()\<close>.\<close>

fun update_first :: "('a \<Rightarrow> bool) \<Rightarrow> ('a \<Rightarrow> 'a) \<Rightarrow> 'a list \<Rightarrow> 'a list option" where
  "update_first p f [] = None"
| "update_first p f (a # as) =
     (if p a then Some (f a # as) else map_option (\<lambda>r. a # r) (update_first p f as))"

text \<open>The body of the innermost loop, for register \<open>i\<close> and one of its four semantics.\<close>

definition add_semantic ::
  "nat \<Rightarrow> Semantic \<Rightarrow> OutputRegisterInfo list \<times> program_state
     \<Rightarrow> OutputRegisterInfo list \<times> program_state"
where
  "add_semantic i semantic acc =
     (let output_info_table = fst acc; s = snd acc in
      if semantic = INVALID then acc
      else case semantic_map semantic of
             None \<Rightarrow>
               (output_info_table,
                ERROR_LOG ''Unknown output attribute mapping: %03x, %03x, %03x, %03x'' s)
           | Some (ty, component_mask') \<Rightarrow>
               (case update_first (\<lambda>info. info_id info = i \<and> info_type info = ty)
                       (\<lambda>info. info\<lparr>component_mask := (component_mask info OR component_mask') mod 2 ^ 4\<rparr>)
                       output_info_table of
                  None \<Rightarrow>
                    (output_info_table @ [\<lparr>info_type = ty, info_id = i, component_mask = component_mask'\<rparr>], s)
                | Some updated \<Rightarrow> (updated, s)))"

definition build_output_info_table ::
  "(nat \<Rightarrow> VSOutputAttributes) \<Rightarrow> program_state \<Rightarrow> OutputRegisterInfo list \<times> program_state"
where
  "build_output_info_table output_attributes s =
     fold (\<lambda>i. fold (add_semantic i)
                  [map_x (output_attributes i), map_y (output_attributes i),
                   map_z (output_attributes i), map_w (output_attributes i)])
          [0..<7] ([], s)"

text \<open>
  The chunks queued by \<open>QueueForWriting\<close>, in order, as the bytes \<open>file.write\<close> finds
  when the queue is flushed (the headers are filled in after they are queued). Sizes
  and offsets are \<open>u32\<close> and wrap at \<open>2 ^ 32\<close>. The arrays come as pointers and are
  functions of the index.
\<close>

definition shader_dump_chunks ::
  "(nat \<Rightarrow> u32) \<Rightarrow> u32 \<Rightarrow> (nat \<Rightarrow> u32) \<Rightarrow> u32 \<Rightarrow> u32 \<Rightarrow> OutputRegisterInfo list \<Rightarrow> u8 list list"
where
  "shader_dump_chunks binary_data binary_size swizzle_data swizzle_size main_offset output_info_table =
     (let write_offset = 0;
          write_offset = (write_offset + (sizeof_struct 1 DVLBHeader + 4)) mod 2 ^ 32;
          dvlp_offset = write_offset;
          write_offset = (write_offset + sizeof_struct 1 DVLPHeader) mod 2 ^ 32;
          dvle_offset = write_offset;
          write_offset = (write_offset + sizeof_struct 1 DVLEHeader) mod 2 ^ 32;
          binary_offset = (write_offset + 2 ^ 32 - dvlp_offset) mod 2 ^ 32;
          binary_chunk_size = (unat binary_size * 4) mod 2 ^ 32;
          write_offset = (write_offset + binary_chunk_size) mod 2 ^ 32;
          swizzle_patterns_offset = (write_offset + 2 ^ 32 - dvlp_offset) mod 2 ^ 32;
          write_offset = (write_offset + 8 * unat swizzle_size) mod 2 ^ 32;
          output_register_table_offset = (write_offset + 2 ^ 32 - dvle_offset) mod 2 ^ 32;
          table_chunk_size = (length output_info_table * 8) mod 2 ^ 32;
          dvlb = struct_bytes DVLBHeader [unat DVLBHeader_MAGIC_WORD, 1] @ le_bytes 4 dvle_offset;
          dvlp = struct_bytes DVLPHeader
                   [unat DVLPHeader_MAGIC_WORD, 0, binary_offset, unat binary_size,
                    swizzle_patterns_offset, unat swizzle_size, 0];
          dvle = struct_bytes DVLEHeader
                   [unat DVLEHeader_MAGIC_WORD, 0, 0, 0, unat main_offset, 0, 0, 0, 0, 0, 0, 0,
                    output_register_table_offset, length output_info_table mod 2 ^ 32, 0, 0, 0, 0]
      in [dvlb, dvlp, dvle,
          take binary_chunk_size
            (concat (map (\<lambda>k. le_bytes 4 (unat (binary_data k))) [0..<unat binary_size]))]
         @ concat (map (\<lambda>k. [le_bytes 4 (unat (swizzle_data k)), le_bytes 4 0])
                     [0..<unat swizzle_size])
         @ [take table_chunk_size (concat (map (\<lambda>info. le_bytes 8 (hex info)) output_info_table))])"

text \<open>
  Everything \<open>DumpShader\<close> does after its first statement: build the output register
  table (logging unknown semantics), count the dump and write the file.
\<close>

definition write_shader_dump ::
  "(nat \<Rightarrow> u32) \<Rightarrow> u32 \<Rightarrow> (nat \<Rightarrow> u32) \<Rightarrow> u32 \<Rightarrow> u32 \<Rightarrow> (nat \<Rightarrow> VSOutputAttributes)
     \<Rightarrow> program_state \<Rightarrow> program_state"
where
  "write_shader_dump binary_data binary_size swizzle_data swizzle_size main_offset output_attributes s =
     (let built = build_output_info_table output_attributes s;
          output_info_table = fst built;
          s = snd built;
          dump_index = shader_dump_index s + 1;
          filename = ''shader_dump'' @ to_string dump_index @ ''.shbin''
      in s\<lparr>shader_dump_index := dump_index,
           files := (files s)(filename \<mapsto>
             concat (shader_dump_chunks binary_data binary_size swizzle_data swizzle_size
                       main_offset output_info_table))\<rparr>)"

definition DumpShader ::
  "(nat \<Rightarrow> u32) \<Rightarrow> u32 \<Rightarrow> (nat \<Rightarrow> u32) \<Rightarrow> u32 \<Rightarrow> u32 \<Rightarrow> (nat \<Rightarrow> VSOutputAttributes)
     \<Rightarrow> program_state \<Rightarrow> program_state"
where
  "DumpShader binary_data binary_size swizzle_data swizzle_size main_offset output_attributes =
     run_body
       [Return,
        Do (write_shader_dump binary_data binary_size swizzle_data swizzle_size main_offset
              output_attributes)]"

section \<open>\<open>DumpTexture\<close> (debug\_utils.cpp, lines 325--447)\<close>

text \<open>\<open>Pica::Regs::TextureConfig\<close> is declared in pica.h; the function reads two members.\<close>

record TextureConfig =
  width :: int
  height :: int

text \<open>
  The buffer \<open>buf\<close> the two loops fill (lines 387--428): for each texel, in row-major
  order, the three bytes at its tiled offset in \<open>data\<close>, in reverse order. \<open>data\<close>
  is a pointer: a function of the byte index.
\<close>

definition detile :: "int \<Rightarrow> int \<Rightarrow> (int \<Rightarrow> u8) \<Rightarrow> u8 list" where
  "detile w h data =
     concat (map (\<lambda>(x, y). let source_ptr = (\<lambda>k. data (source_offset w x y + k))
                            in [source_ptr 2, source_ptr 1, source_ptr 0])
               (loop_coords w h))"

text \<open>
  Everything \<open>DumpTexture\<close> does after its first statement. Without \<open>HAVE_PNG\<close> the
  rest of the body is a second \<open>return\<close>; with it, a null \<open>data\<close> returns, and otherwise
  the dump is counted and the file written. The encoder is libpng's, a parameter here:
  \<open>png\<close> gives the file's bytes from the width, the height and the rows of \<open>buf\<close>;
  the paths on which libpng fails to start are left out.
\<close>

definition write_texture_dump ::
  "bool \<Rightarrow> (int \<Rightarrow> int \<Rightarrow> u8 list \<Rightarrow> u8 list) \<Rightarrow> TextureConfig \<Rightarrow> (int \<Rightarrow> u8) option
     \<Rightarrow> program_state \<Rightarrow> program_state"
where
  "write_texture_dump HAVE_PNG png texture_config data s =
     (if \<not> HAVE_PNG then s
      else case data of
             None \<Rightarrow> s
           | Some bytes \<Rightarrow>
               (let dump_index = texture_dump_index s + 1;
                    filename = ''texture_dump'' @ to_string dump_index @ ''.png'';
                    buf = detile (width texture_config) (height texture_config) bytes
                in s\<lparr>texture_dump_index := dump_index,
                     files := (files s)(filename \<mapsto>
                       png (width texture_config) (height texture_config) buf)\<rparr>))"

definition DumpTexture ::
  "bool \<Rightarrow> (int \<Rightarrow> int \<Rightarrow> u8 list \<Rightarrow> u8 list) \<Rightarrow> TextureConfig \<Rightarrow> (int \<Rightarrow> u8) option
     \<Rightarrow> program_state \<Rightarrow> program_state"
where
  "DumpTexture HAVE_PNG png texture_config data =
     run_body [Return, Do (write_texture_dump HAVE_PNG png texture_config data)]"

section \<open>Vulkan surface views (vk\_texture\_cache.h)\<close>

text \<open>
  Modelled from the spec: the enum \<open>Tegra::Texture::SwizzleSource\<close>, whose declaration
  (video\_core/textures/texture.h) is missing. The header names its enumerators \<open>R\<close>,
  \<open>G\<close>, \<open>B\<close> and \<open>A\<close>; the spec lists the selectors as
  "identity/R/G/B/A/zero/one". The numeric value of an enumerator, which
  \<open>static_cast<u32>\<close> reads, is given by neither: the functions below take the cast as
  a parameter.
\<close>

datatype SwizzleSource =
  SwizzleSource_Identity
| SwizzleSource_R | SwizzleSource_G | SwizzleSource_B | SwizzleSource_A
| SwizzleSource_Zero | SwizzleSource_One

text \<open>\<open>CachedSurfaceView::EncodeSwizzle\<close> (lines 189--195).\<close>

definition EncodeSwizzle ::
  "(SwizzleSource \<Rightarrow> u32) \<Rightarrow> SwizzleSource \<Rightarrow> SwizzleSource \<Rightarrow> SwizzleSource \<Rightarrow> SwizzleSource \<Rightarrow> u32"
where
  "EncodeSwizzle static_cast_u32 x_source y_source z_source w_source =
     (push_bit 24 (static_cast_u32 x_source) OR push_bit 16 (static_cast_u32 y_source)
        OR push_bit 8 (static_cast_u32 z_source)) OR static_cast_u32 w_source"

text \<open>
  The native sub-object a View hands out: an image view over a range of layers and
  levels with a component mapping. The device's objects are the list of those
  constructed so far, and a handle is a position in it.
\<close>

record ImageView =
  components :: "SwizzleSource \<times> SwizzleSource \<times> SwizzleSource \<times> SwizzleSource"
  view_base_layer :: u32
  view_num_layers :: u32
  view_base_level :: u32
  view_num_levels :: u32

text \<open>
  The members of \<open>CachedSurfaceView\<close> (lines 197--214) that the functions below use:
  the reference to the surface (an index into the store of surfaces), the range and
  the cache of sub-objects by swizzle key.
\<close>

record CachedSurfaceView =
  surface :: nat
  base_layer :: u32
  num_layers :: u32
  base_level :: u32
  num_levels :: u32
  view_cache :: "u32 \<rightharpoonup> nat"

text \<open>
  Modelled from the spec: the body of the four-argument \<open>CachedSurfaceView::GetHandle\<close>,
  which the header only declares (lines 132--135). "Computes a 32-bit key by packing
  each 8-bit selector; looks up the per-View swizzle cache; on miss, constructs a new
  native sub-object scoped to (base\_layer, num\_layers, base\_level, num\_levels) and
  inserts it." The state is the device's objects and the View; the result is the handle.
\<close>

definition GetHandle ::
  "(SwizzleSource \<Rightarrow> u32) \<Rightarrow> SwizzleSource \<Rightarrow> SwizzleSource \<Rightarrow> SwizzleSource \<Rightarrow> SwizzleSource
     \<Rightarrow> ImageView list \<times> CachedSurfaceView \<Rightarrow> nat \<times> ImageView list \<times> CachedSurfaceView"
where
  "GetHandle static_cast_u32 x_source y_source z_source w_source st =
     (let device = fst st; v = snd st;
          swizzle = EncodeSwizzle static_cast_u32 x_source y_source z_source w_source
      in case view_cache v swizzle of
           Some handle \<Rightarrow> (handle, device, v)
         | None \<Rightarrow>
             (length device,
              device @ [\<lparr>components = (x_source, y_source, z_source, w_source),
                          view_base_layer = base_layer v, view_num_layers = num_layers v,
                          view_base_level = base_level v, view_num_levels = num_levels v\<rparr>],
              v\<lparr>view_cache := (view_cache v)(swizzle \<mapsto> length device)\<rparr>))"

text \<open>
  The zero-argument \<open>GetHandle\<close> (lines 141--144), over any implementation of the
  four-argument overload.
\<close>

definition GetHandle_default ::
  "(SwizzleSource \<Rightarrow> SwizzleSource \<Rightarrow> SwizzleSource \<Rightarrow> SwizzleSource \<Rightarrow> 'st \<Rightarrow> 'r) \<Rightarrow> 'st \<Rightarrow> 'r"
where
  "GetHandle_default GetHandle4 =
     GetHandle4 SwizzleSource_R SwizzleSource_G SwizzleSource_B SwizzleSource_A"

text \<open>
  Modelled from the spec: the part of \<open>VideoCommon::SurfaceBase\<close> (the base class of
  \<open>CachedSurface\<close>, video\_core/texture\_cache/surface\_base.h, missing) that
  \<open>MarkAsModified\<close> changes. A Surface "holds a monotonically non-decreasing
  modification tick".
\<close>

record SurfaceBase =
  modification_tick :: u64

text \<open>
  Modelled from the spec: \<open>SurfaceBase::MarkAsModified\<close>, whose definition is missing
  with the rest of \<open>SurfaceBase\<close>. It "records the latest tick at which any writer
  touched this Surface", is "monotonic, last-write-wins, never decreases", and "a
  Surface's recorded tick after both is max(t1, t2), regardless of write order": the
  recorded tick becomes the larger of the old one and the new one. What the flag passed
  first does is not described.
\<close>

definition SurfaceBase_MarkAsModified :: "bool \<Rightarrow> u64 \<Rightarrow> SurfaceBase \<Rightarrow> SurfaceBase" where
  "SurfaceBase_MarkAsModified is_modified tick s =
     s\<lparr>modification_tick := max (modification_tick s) tick\<rparr>"

text \<open>
  \<open>CachedSurfaceView::MarkAsModified\<close> (lines 184--186): the call goes to the surface
  the View refers to. Several Views can refer to one surface, so the surfaces live in a
  store indexed by the reference.
\<close>

definition MarkAsModified :: "u64 \<Rightarrow> CachedSurfaceView \<Rightarrow> (nat \<Rightarrow> SurfaceBase) \<Rightarrow> (nat \<Rightarrow> SurfaceBase)" where
  "MarkAsModified tick v surfaces =
     surfaces(surface v := SurfaceBase_MarkAsModified True tick (surfaces (surface v)))"

text \<open>A sequence of \<open>MarkAsModified\<close> calls, each through some View with some tick.\<close>

fun MarkAsModified_calls ::
  "(CachedSurfaceView \<times> u64) list \<Rightarrow> (nat \<Rightarrow> SurfaceBase) \<Rightarrow> (nat \<Rightarrow> SurfaceBase)"
where
  "MarkAsModified_calls [] surfaces = surfaces"
| "MarkAsModified_calls ((v, tick) # calls) surfaces =
     MarkAsModified_calls calls (MarkAsModified tick v surfaces)"

text \<open>
  What holds of the device and a View between calls: every cached handle is the
  position of an object the device holds, and no handle is cached under two keys.
  It holds of a View with an empty cache.
\<close>

definition cache_inv :: "ImageView list \<times> CachedSurfaceView \<Rightarrow> bool" where
  "cache_inv st =
     (\<forall>k h. view_cache (snd st) k = Some h \<longrightarrow>
        h < length (fst st) \<and> (\<forall>k'. view_cache (snd st) k' = Some h \<longrightarrow> k' = k))"

text \<open>For the examples: a numbering of the enumerators in 8 bits, and a View with an empty cache.\<close>

fun sample_cast :: "SwizzleSource \<Rightarrow> u32" where
  "sample_cast SwizzleSource_Zero = 0"
| "sample_cast SwizzleSource_Identity = 1"
| "sample_cast SwizzleSource_R = 2"
| "sample_cast SwizzleSource_G = 3"
| "sample_cast SwizzleSource_B = 4"
| "sample_cast SwizzleSource_A = 5"
| "sample_cast SwizzleSource_One = 6"

definition sample_view :: CachedSurfaceView where
  "sample_view =
     \<lparr>surface = 0, base_layer = 0, num_layers = 1, base_level = 0, num_levels = 1,
      view_cache = Map.empty\<rparr>"

section \<open>The tile index is the Z-order interleave\<close>

lemma texel_loop_sum:
  "texel_loop x y i acc =
     acc + (\<Sum>level = i..<3. push_bit level (x AND push_bit level 1)
                              + 2 * push_bit level (y AND push_bit level 1))"
proof (induction x y i acc rule: texel_loop.induct)
  case (1 x y i acc)
  let ?f = "\<lambda>level. push_bit level (x AND push_bit level 1)
                       + 2 * push_bit level (y AND push_bit level 1)"
  show ?case
  proof (cases "i < 3")
    case True
    have "texel_loop x y i acc = texel_loop x y (i + 1) (acc + ?f i)"
      using True by (subst texel_loop.simps) (simp add: Let_def)
    also have "\<dots> = acc + ?f i + (\<Sum>level = i + 1..<3. ?f level)"
      using "1.IH"[OF True refl refl refl refl] by (simp add: Let_def)
    also have "\<dots> = acc + (\<Sum>level = i..<3. ?f level)"
      using True by (simp add: sum.atLeast_Suc_lessThan)
    finally show ?thesis .
  next
    case False
    then show ?thesis by (subst texel_loop.simps) simp
  qed
qed

lemma texel_index_sum:
  "texel_index_within_tile x y =
     (\<Sum>level = 0..<3. push_bit level (x AND push_bit level 1)
                        + 2 * push_bit level (y AND push_bit level 1))"
  unfolding texel_index_within_tile_def by (subst texel_loop_sum) simp

lemma levels_012: "{0, 1, 2 :: nat} = {0..<3}"
  by auto

lemma tile_picture_computed:
  "map (\<lambda>y. map (\<lambda>x. texel_index_within_tile x y) [0..7]) (rev [0..7]) = tile_picture"
  by code_simp

text \<open>
  C1. For every texel of an 8x8 tile the loop's index is the sum, over the levels 0, 1
  and 2, of \<open>((x & (1 << level)) << level) + 2 * ((y & (1 << level)) << level)\<close>. The
  tile is traversed in the permutation drawn in the source: the bottom row holds
  0, 1, 4, 5, 16, 17, 20, 21, and the 2x2 quads at (0,0), (0,2) and (4,0) hold
  0, 1, 2, 3, then 8, 9, 10, 11, then 16, 17, ...
\<close>

theorem texel_index_z_order:
  "(\<forall>x\<in>{0..<8}. \<forall>y\<in>{0..<8}.
      texel_index_within_tile x y =
        (\<Sum>level\<in>{0, 1, 2}. push_bit level (x AND push_bit level 1)
                              + 2 * push_bit level (y AND push_bit level 1)))
   \<and> map (\<lambda>x. texel_index_within_tile x 0) [0..7] = [0, 1, 4, 5, 16, 17, 20, 21]
   \<and> map (\<lambda>y. map (\<lambda>x. texel_index_within_tile x y) [0..7]) (rev [0..7]) = tile_picture
   \<and> map (\<lambda>(x, y). texel_index_within_tile x y)
        [(0,0), (1,0), (0,1), (1,1), (0,2), (1,2), (0,3), (1,3), (4,0), (5,0)]
      = [0, 1, 2, 3, 8, 9, 10, 11, 16, 17]"
proof (intro conjI ballI)
  fix x y :: int
  show "texel_index_within_tile x y =
        (\<Sum>level\<in>{0, 1, 2}. push_bit level (x AND push_bit level 1)
                              + 2 * push_bit level (y AND push_bit level 1))"
    unfolding levels_012 by (rule texel_index_sum)
next
  show "map (\<lambda>x. texel_index_within_tile x 0) [0..7] = [0, 1, 4, 5, 16, 17, 20, 21]"
    by code_simp
next
  show "map (\<lambda>y. map (\<lambda>x. texel_index_within_tile x y) [0..7]) (rev [0..7]) = tile_picture"
    by (rule tile_picture_computed)
next
  show "map (\<lambda>(x, y). texel_index_within_tile x y)
        [(0,0), (1,0), (0,1), (1,1), (0,2), (1,2), (0,3), (1,3), (4,0), (5,0)]
      = [0, 1, 2, 3, 8, 9, 10, 11, 16, 17]"
    by code_simp
qed

theorem texel_index_z_order_witness:
  "(5::int) \<in> {0..<8} \<and> (3::int) \<in> {0..<8} \<and> texel_index_within_tile 5 3 = 27"
proof -
  have "texel_index_within_tile 5 3 =
        (\<Sum>level\<in>{0, 1, 2::nat}. push_bit level ((5::int) AND push_bit level 1)
                              + 2 * push_bit level ((3::int) AND push_bit level 1))"
    using texel_index_z_order by simp
  then show ?thesis by simp
qed

section \<open>The addressing is one-to-one\<close>

lemma and_bit_take:
  "l < 3 \<Longrightarrow> (take_bit 3 x AND push_bit l 1) = (x AND push_bit l (1::int))"
  by (rule bit_eqI) (auto simp: bit_simps)

text \<open>Only the three low bits of each coordinate enter the index.\<close>

lemma texel_index_mod8:
  "texel_index_within_tile (x mod 8) (y mod 8) = texel_index_within_tile x y"
proof -
  have "\<And>l. l < 3 \<Longrightarrow> (x mod 8 AND push_bit l 1) = (x AND push_bit l (1::int))"
       "\<And>l. l < 3 \<Longrightarrow> (y mod 8 AND push_bit l 1) = (y AND push_bit l (1::int))"
    using and_bit_take[of _ x] and_bit_take[of _ y] by (simp_all add: take_bit_eq_mod)
  then show ?thesis
    unfolding texel_index_sum by (intro sum.cong) simp_all
qed

lemma set_loop_coords: "set (loop_coords W H) = {0..<W} \<times> {0..<H}"
proof -
  have "{0..W - 1} = {0..<W}" "{0..H - 1} = {0..<H}" by auto
  then show ?thesis by (auto simp: loop_coords_def)
qed

lemma tile_distinct:
  "distinct (map (\<lambda>(x, y). texel_index_within_tile x y) (loop_coords 8 8))"
  by code_simp

lemma tile_image:
  "set (map (\<lambda>(x, y). texel_index_within_tile x y) (loop_coords 8 8)) = set [0..63]"
  by code_simp

lemma tile_inj: "inj_on (\<lambda>(x, y). texel_index_within_tile x y) ({0..<8} \<times> {0..<8})"
  using tile_distinct by (simp add: distinct_map set_loop_coords)

lemma tile_range:
  "(\<lambda>(x, y). texel_index_within_tile x y) ` ({0..<8} \<times> {0..<8}) = {0..<64}"
proof -
  have "(\<lambda>(x, y). texel_index_within_tile x y) ` ({0..<8} \<times> {0..<8}) = {0..63}"
    using tile_image by (simp only: set_map set_loop_coords set_upto)
  moreover have "{0..63::int} = {0..<64}" by auto
  ultimately show ?thesis by simp
qed

lemma texel_index_bounds:
  "0 \<le> texel_index_within_tile x y \<and> texel_index_within_tile x y < 64"
proof -
  have "(x mod 8, y mod 8) \<in> {0..<8} \<times> {0..<8}" by simp
  then have "(\<lambda>(x, y). texel_index_within_tile x y) (x mod 8, y mod 8) \<in> {0..<64}"
    unfolding tile_range[symmetric] by (rule imageI)
  then show ?thesis by (simp add: texel_index_mod8)
qed

text \<open>
  In an image of \<open>k\<close> by \<open>h\<close> tiles the offset is three times: 64 times the tile
  number, plus the index in the tile. It lies inside the \<open>3 * width * height\<close> bytes
  of the image, so while these are at most \<open>2 ^ 31\<close> nothing wraps.
\<close>

lemma offset_in_image:
  fixes k h x y :: int
  assumes "0 \<le> x" "x < 8 * k" "0 \<le> y" "y < 8 * h"
  shows "0 \<le> 3 * (64 * (x div 8 + k * (y div 8)) + texel_index_within_tile x y)
       \<and> 3 * (64 * (x div 8 + k * (y div 8)) + texel_index_within_tile x y) + 3
           \<le> 3 * (8 * k) * (8 * h)"
proof -
  have a: "0 \<le> x div 8" "x div 8 \<le> k - 1" using assms by simp_all
  have b: "0 \<le> y div 8" "y div 8 \<le> h - 1" using assms by simp_all
  have k: "0 \<le> k" using assms by simp
  have i: "0 \<le> texel_index_within_tile x y" "texel_index_within_tile x y \<le> 63"
    using texel_index_bounds[of x y] by simp_all
  have lo: "0 \<le> k * (y div 8)" using k b(1) by simp
  have "k * (y div 8) \<le> k * (h - 1)" using k b(2) by (rule mult_left_mono[rotated])
  then have hi: "k * (y div 8) \<le> k * h - k" by (simp add: algebra_simps)
  define p where "p = k * (y div 8)"
  define q where "q = k * h"
  have lhs: "3 * (64 * (x div 8 + k * (y div 8)) + texel_index_within_tile x y)
      = 192 * (x div 8) + 192 * p + 3 * texel_index_within_tile x y"
    by (simp add: p_def algebra_simps)
  have rhs: "3 * (8 * k) * (8 * h) = 192 * q" by (simp add: q_def)
  have "0 \<le> p" "p \<le> q - k" using lo hi by (simp_all add: p_def q_def)
  then show ?thesis unfolding lhs rhs using a i by linarith
qed

lemma mod_inner:
  fixes a b c d m :: int
  shows "(a + b * (c mod m) + d) mod m = (a + b * c + d) mod m"
proof -
  have "(b * (c mod m)) mod m = (b * c) mod m" by (rule mod_mult_right_eq)
  then have "(a + b * (c mod m)) mod m = (a + b * c) mod m" by (rule mod_add_cong[OF refl])
  then show ?thesis by (rule mod_add_cong[OF _ refl])
qed

lemma source_offset_unwrapped:
  "source_offset W x y =
     (x div 8 * 8 * 8 * 3 + y div 8 * 8 * (W * 3) + texel_index_within_tile x y * 3) mod 2 ^ 32"
  unfolding source_offset_def Let_def by (rule mod_inner)

lemma below_wrap: "(e::int) + 3 \<le> 2 ^ 31 \<Longrightarrow> e < 2 ^ 32"
  by simp

lemma source_offset_eq:
  fixes k h x y :: int
  assumes "0 \<le> x" "x < 8 * k" "0 \<le> y" "y < 8 * h" "3 * (8 * k) * (8 * h) \<le> 2 ^ 31"
  shows "source_offset (8 * k) x y =
     3 * (64 * (x div 8 + k * (y div 8)) + texel_index_within_tile x y)"
proof -
  let ?e = "3 * (64 * (x div 8 + k * (y div 8)) + texel_index_within_tile x y)"
  have "?e + 3 \<le> 3 * (8 * k) * (8 * h)"
    using offset_in_image[OF assms(1-4)] by (rule conjunct2)
  then have "?e + 3 \<le> 2 ^ 31" using assms(5) by (rule order_trans)
  then have hi: "?e < 2 ^ 32" by (rule below_wrap)
  have lo: "0 \<le> ?e"
    using offset_in_image[OF assms(1-4)] by (rule conjunct1)
  have "x div 8 * 8 * 8 * 3 + y div 8 * 8 * (8 * k * 3) + texel_index_within_tile x y * 3 = ?e"
    by (simp add: algebra_simps)
  then have "source_offset (8 * k) x y = ?e mod 2 ^ 32"
    by (simp only: source_offset_unwrapped)
  also have "\<dots> = ?e"
    using lo hi by (rule mod_pos_pos_trivial)
  finally show ?thesis .
qed

lemma split_tile:
  fixes t i t' i' :: int
  assumes "64 * t + i = 64 * t' + i'" "0 \<le> i" "i < 64" "0 \<le> i'" "i' < 64"
  shows "t = t' \<and> i = i'"
proof -
  have "(i + 64 * t) div 64 = i div 64 + t" "(i' + 64 * t') div 64 = i' div 64 + t'"
    by simp_all
  moreover have "i div 64 = 0" "i' div 64 = 0"
    using assms by (simp_all add: div_pos_pos_trivial)
  ultimately have "t = t'" using assms(1) by (simp add: add.commute)
  then show ?thesis using assms(1) by simp
qed

lemma split_row:
  fixes a b a' b' k :: int
  assumes "a + k * b = a' + k * b'" "0 \<le> a" "a < k" "0 \<le> a'" "a' < k"
  shows "a = a' \<and> b = b'"
proof -
  have "(a + k * b) mod k = a mod k" "(a' + k * b') mod k = a' mod k"
    by (rule mod_mult_self2)+
  moreover have "a mod k = a" "a' mod k = a'"
    using assms by (simp_all add: mod_pos_pos_trivial)
  ultimately have a: "a = a'" using assms(1) by simp
  have "k \<noteq> 0" using assms by auto
  then show ?thesis using a assms(1) by simp
qed

lemma source_offset_inj:
  fixes k h x y x' y' :: int
  assumes "0 \<le> x" "x < 8 * k" "0 \<le> y" "y < 8 * h"
    and "0 \<le> x'" "x' < 8 * k" "0 \<le> y'" "y' < 8 * h"
    and size: "3 * (8 * k) * (8 * h) \<le> 2 ^ 31"
    and eq: "source_offset (8 * k) x y = source_offset (8 * k) x' y'"
  shows "x = x' \<and> y = y'"
proof -
  have "3 * (64 * (x div 8 + k * (y div 8)) + texel_index_within_tile x y)
       = 3 * (64 * (x' div 8 + k * (y' div 8)) + texel_index_within_tile x' y')"
    using eq source_offset_eq[OF assms(1-4) size] source_offset_eq[OF assms(5-8) size]
    by simp
  then have "64 * (x div 8 + k * (y div 8)) + texel_index_within_tile x y
       = 64 * (x' div 8 + k * (y' div 8)) + texel_index_within_tile x' y'"
    by simp
  then have ti: "x div 8 + k * (y div 8) = x' div 8 + k * (y' div 8)
        \<and> texel_index_within_tile x y = texel_index_within_tile x' y'"
    by (rule split_tile) (simp_all add: texel_index_bounds)
  have "0 \<le> x div 8" "x div 8 < k" "0 \<le> x' div 8" "x' div 8 < k"
    using assms by simp_all
  with ti have d: "x div 8 = x' div 8 \<and> y div 8 = y' div 8"
    by (intro split_row) simp_all
  have "texel_index_within_tile (x mod 8) (y mod 8)
        = texel_index_within_tile (x' mod 8) (y' mod 8)"
    using ti by (simp add: texel_index_mod8)
  moreover have "(x mod 8, y mod 8) \<in> {0..<8} \<times> {0..<8}"
    "(x' mod 8, y' mod 8) \<in> {0..<8} \<times> {0..<8}" by simp_all
  ultimately have "(x mod 8, y mod 8) = (x' mod 8, y' mod 8)"
    using inj_onD[OF tile_inj, of "(x mod 8, y mod 8)" "(x' mod 8, y' mod 8)"] by simp
  then have m: "x mod 8 = x' mod 8" "y mod 8 = y' mod 8" by simp_all
  have "8 * (x div 8) + x mod 8 = 8 * (x' div 8) + x' mod 8"
       "8 * (y div 8) + y mod 8 = 8 * (y' div 8) + y' mod 8"
    using d m by simp_all
  then show ?thesis by simp
qed

lemma find_unique:
  "a \<in> set xs \<Longrightarrow> P a \<Longrightarrow> \<forall>b\<in>set xs. P b \<longrightarrow> b = a \<Longrightarrow> find P xs = Some a"
proof (induction xs)
  case Nil
  then show ?case by simp
next
  case (Cons c xs)
  show ?case
  proof (cases "P c")
    case True
    then have "c = a" using Cons.prems(3) by simp
    then show ?thesis using True by simp
  next
    case False
    then have "a \<in> set xs" using Cons.prems(1,2) by auto
    moreover have "\<forall>b\<in>set xs. P b \<longrightarrow> b = a" using Cons.prems(3) by simp
    ultimately have "find P xs = Some a" using Cons.IH Cons.prems(2) by blast
    then show ?thesis using False by simp
  qed
qed

lemma decode_encode:
  assumes "W mod 8 = 0" "H mod 8 = 0" "3 * W * H \<le> 2 ^ 31"
    and "0 \<le> x" "x < W" "0 \<le> y" "y < H"
  shows "decode_offset W H (source_offset W x y) = Some (x, y)"
proof -
  have "8 dvd W" using assms(1) by (rule mod_0_imp_dvd)
  then obtain k where k: "W = 8 * k" by (rule dvdE)
  have "8 dvd H" using assms(2) by (rule mod_0_imp_dvd)
  then obtain h where h: "H = 8 * h" by (rule dvdE)
  have size: "3 * (8 * k) * (8 * h) \<le> 2 ^ 31" using assms(3) unfolding k h .
  have xy: "0 \<le> x" "x < 8 * k" "0 \<le> y" "y < 8 * h" using assms(4-7) unfolding k h by simp_all
  have mem: "(x, y) \<in> set (loop_coords W H)"
    using assms(4-7) by (simp add: set_loop_coords)
  have uniq: "\<forall>b\<in>set (loop_coords W H).
      (case b of (x', y') \<Rightarrow> source_offset W x' y' = source_offset W x y) \<longrightarrow> b = (x, y)"
  proof (intro ballI impI)
    fix b
    assume in_image: "b \<in> set (loop_coords W H)"
      and same: "case b of (x', y') \<Rightarrow> source_offset W x' y' = source_offset W x y"
    obtain x' y' where b: "b = (x', y')" by (cases b)
    have xy': "0 \<le> x'" "x' < 8 * k" "0 \<le> y'" "y' < 8 * h"
      using in_image unfolding b k h by (simp_all add: set_loop_coords)
    have "source_offset (8 * k) x' y' = source_offset (8 * k) x y"
      using same unfolding b k by simp
    then have "x' = x \<and> y' = y"
      by (rule source_offset_inj[OF xy' xy size])
    then show "b = (x, y)" using b by simp
  qed
  have here: "case (x, y) of (x', y') \<Rightarrow> source_offset W x' y' = source_offset W x y"
    by simp
  show ?thesis
    unfolding decode_offset_def by (rule find_unique[OF mem here uniq])
qed

lemma source_offset_in_image:
  assumes "W mod 8 = 0" "H mod 8 = 0" "3 * W * H \<le> 2 ^ 31"
    and "0 \<le> x" "x < W" "0 \<le> y" "y < H"
  shows "0 \<le> source_offset W x y \<and> source_offset W x y + 3 \<le> 3 * W * H"
proof -
  have "8 dvd W" using assms(1) by (rule mod_0_imp_dvd)
  then obtain k where k: "W = 8 * k" by (rule dvdE)
  have "8 dvd H" using assms(2) by (rule mod_0_imp_dvd)
  then obtain h where h: "H = 8 * h" by (rule dvdE)
  have size: "3 * (8 * k) * (8 * h) \<le> 2 ^ 31" using assms(3) unfolding k h .
  have xy: "0 \<le> x" "x < 8 * k" "0 \<le> y" "y < 8 * h" using assms(4-7) unfolding k h by simp_all
  show ?thesis
    unfolding k h source_offset_eq[OF xy size] by (rule offset_in_image[OF xy])
qed

text \<open>
  C2. Inside a tile the index function is one-to-one and onto 0..63. In an image whose
  width and height are multiples of 8 (and whose \<open>3 * width * height\<close> bytes are within
  the range of the 32-bit offsets), every texel's offset lies inside the image, and
  reading the addressing backwards after applying it gives the coordinates back.
\<close>

theorem tiled_addressing_round_trip:
  assumes "W mod 8 = 0" and "H mod 8 = 0" and "3 * W * H \<le> 2 ^ 31"
    and "0 \<le> x" and "x < W" and "0 \<le> y" and "y < H"
  shows "bij_betw (\<lambda>(x, y). texel_index_within_tile x y) ({0..<8} \<times> {0..<8}) {0..<64}
       \<and> decode_offset W H (source_offset W x y) = Some (x, y)
       \<and> 0 \<le> source_offset W x y \<and> source_offset W x y + 3 \<le> 3 * W * H"
proof (intro conjI)
  show "bij_betw (\<lambda>(x, y). texel_index_within_tile x y) ({0..<8} \<times> {0..<8}) {0..<64}"
    unfolding bij_betw_def using tile_inj tile_range by simp
next
  show "decode_offset W H (source_offset W x y) = Some (x, y)"
    using assms by (rule decode_encode)
next
  show "0 \<le> source_offset W x y" "source_offset W x y + 3 \<le> 3 * W * H"
    using source_offset_in_image[OF assms] by simp_all
qed

theorem tiled_addressing_round_trip_witness:
  "(16::int) mod 8 = 0 \<and> (8::int) mod 8 = 0 \<and> (3::int) * 16 * 8 \<le> 2 ^ 31
   \<and> (0::int) \<le> 13 \<and> (13::int) < 16 \<and> (0::int) \<le> 5 \<and> (5::int) < 8
   \<and> source_offset 16 13 5 = 345
   \<and> decode_offset 16 8 345 = Some (13, 5)"
proof -
  have off: "source_offset 16 13 5 = 345" by code_simp
  have "decode_offset 16 8 (source_offset 16 13 5) = Some (13, 5)"
    using tiled_addressing_round_trip[of 16 8 13 5] by simp
  then show ?thesis using off by simp
qed

section \<open>Tracing\<close>

lemma OnPicaRegWrites_tracing:
  "is_pica_tracing s \<Longrightarrow> pica_trace s = Some t \<Longrightarrow>
     OnPicaRegWrites ws s = Inr (s\<lparr>pica_trace := Some (t\<lparr>writes := writes t @ ws\<rparr>)\<rparr>)"
proof (induction ws arbitrary: s t)
  case Nil
  then show ?case by simp
next
  case (Cons w ws)
  obtain i v where w: "w = (i, v)" by (cases w)
  let ?t = "t\<lparr>writes := writes t @ [(i, v)]\<rparr>"
  let ?s = "s\<lparr>pica_trace := Some ?t\<rparr>"
  have step: "OnPicaRegWrite i v s = Inr ?s"
    using Cons.prems by (simp add: OnPicaRegWrite_def)
  have "OnPicaRegWrites ws ?s = Inr (?s\<lparr>pica_trace := Some (?t\<lparr>writes := writes ?t @ ws\<rparr>)\<rparr>)"
    by (rule Cons.IH) (use Cons.prems in simp_all)
  then show ?case using step w by simp
qed

lemma OnPicaRegWrite_dropped: "\<not> is_pica_tracing s \<Longrightarrow> OnPicaRegWrite i v s = Inr s"
  by (simp add: OnPicaRegWrite_def)

text \<open>
  C3. From a state in which no trace is running, \<open>StartPicaTracing\<close>, then one
  \<open>OnPicaRegWrite\<close> per pair of a list, then \<open>FinishPicaTracing\<close>: the calls succeed,
  the trace returned holds exactly the pairs in call order, and in the state left
  behind every further \<open>OnPicaRegWrite\<close> changes nothing.
\<close>

theorem tracing_returns_writes_in_order:
  assumes "\<not> is_pica_tracing s"
  shows "OnPicaRegWrites ws (StartPicaTracing s)
           = Inr (s\<lparr>pica_trace := Some \<lparr>writes = ws\<rparr>, is_pica_tracing := True\<rparr>)
       \<and> FinishPicaTracing (s\<lparr>pica_trace := Some \<lparr>writes = ws\<rparr>, is_pica_tracing := True\<rparr>)
           = (Some \<lparr>writes = ws\<rparr>, s\<lparr>pica_trace := None, is_pica_tracing := False\<rparr>)
       \<and> (\<forall>i v. OnPicaRegWrite i v (s\<lparr>pica_trace := None, is_pica_tracing := False\<rparr>)
           = Inr (s\<lparr>pica_trace := None, is_pica_tracing := False\<rparr>))"
proof (intro conjI allI)
  have start: "StartPicaTracing s = s\<lparr>pica_trace := Some \<lparr>writes = []\<rparr>, is_pica_tracing := True\<rparr>"
    using assms by (simp add: StartPicaTracing_def)
  show "OnPicaRegWrites ws (StartPicaTracing s)
           = Inr (s\<lparr>pica_trace := Some \<lparr>writes = ws\<rparr>, is_pica_tracing := True\<rparr>)"
    unfolding start by (subst OnPicaRegWrites_tracing[where t = "\<lparr>writes = []\<rparr>"]) simp_all
next
  show "FinishPicaTracing (s\<lparr>pica_trace := Some \<lparr>writes = ws\<rparr>, is_pica_tracing := True\<rparr>)
           = (Some \<lparr>writes = ws\<rparr>, s\<lparr>pica_trace := None, is_pica_tracing := False\<rparr>)"
    by (simp add: FinishPicaTracing_def)
next
  fix i v
  show "OnPicaRegWrite i v (s\<lparr>pica_trace := None, is_pica_tracing := False\<rparr>)
           = Inr (s\<lparr>pica_trace := None, is_pica_tracing := False\<rparr>)"
    by (simp add: OnPicaRegWrite_dropped)
qed

theorem tracing_returns_writes_in_order_witness:
  "\<not> is_pica_tracing initial_state
   \<and> OnPicaRegWrites [(1, 10), (2, 20), (3, 30)] (StartPicaTracing initial_state)
       = Inr (initial_state\<lparr>pica_trace := Some \<lparr>writes = [(1, 10), (2, 20), (3, 30)]\<rparr>,
                            is_pica_tracing := True\<rparr>)
   \<and> fst (FinishPicaTracing
            (initial_state\<lparr>pica_trace := Some \<lparr>writes = [(1, 10), (2, 20), (3, 30)]\<rparr>,
                           is_pica_tracing := True\<rparr>))
       = Some \<lparr>writes = [(1, 10), (2, 20), (3, 30)]\<rparr>
   \<and> OnPicaRegWrite 4 40 (initial_state\<lparr>pica_trace := None, is_pica_tracing := False\<rparr>)
       = Inr (initial_state\<lparr>pica_trace := None, is_pica_tracing := False\<rparr>)"
proof -
  have idle: "\<not> is_pica_tracing initial_state" by (simp add: initial_state_def)
  show ?thesis
    using idle tracing_returns_writes_in_order[OF idle, of "[(1, 10), (2, 20), (3, 30)]"]
    by simp
qed

text \<open>
  C5. \<open>StartPicaTracing\<close> while a trace is running and \<open>FinishPicaTracing\<close> while none
  is running each add one line to the error log and change nothing else: the trace
  buffer and the flag stay as they are, and \<open>FinishPicaTracing\<close> returns an empty
  pointer.
\<close>

theorem tracing_misuse_is_logged_no_op:
  "(is_pica_tracing s \<longrightarrow>
      StartPicaTracing s =
        s\<lparr>error_log := error_log s
              @ [''StartPicaTracing called even though tracing already running!'']\<rparr>)
   \<and> (\<not> is_pica_tracing s \<longrightarrow>
      FinishPicaTracing s =
        (None, s\<lparr>error_log := error_log s
                     @ [''FinishPicaTracing called even though tracing already running!'']\<rparr>))"
  by (simp add: StartPicaTracing_def FinishPicaTracing_def ERROR_LOG_def)

theorem tracing_misuse_is_logged_no_op_witness:
  "is_pica_tracing (StartPicaTracing initial_state)
   \<and> pica_trace (StartPicaTracing (StartPicaTracing initial_state)) = Some \<lparr>writes = []\<rparr>
   \<and> error_log (StartPicaTracing (StartPicaTracing initial_state))
       = [''StartPicaTracing called even though tracing already running!'']
   \<and> \<not> is_pica_tracing initial_state
   \<and> FinishPicaTracing initial_state
       = (None, initial_state\<lparr>error_log :=
                  [''FinishPicaTracing called even though tracing already running!'']\<rparr>)"
proof -
  have running: "is_pica_tracing (StartPicaTracing initial_state)"
    by (simp add: StartPicaTracing_def initial_state_def)
  have idle: "\<not> is_pica_tracing initial_state" by (simp add: initial_state_def)
  have started: "StartPicaTracing initial_state
      = initial_state\<lparr>pica_trace := Some \<lparr>writes = []\<rparr>, is_pica_tracing := True\<rparr>"
    by (simp add: StartPicaTracing_def initial_state_def)
  have "StartPicaTracing (StartPicaTracing initial_state) =
      (StartPicaTracing initial_state)\<lparr>error_log := error_log (StartPicaTracing initial_state)
         @ [''StartPicaTracing called even though tracing already running!'']\<rparr>"
    using tracing_misuse_is_logged_no_op[of "StartPicaTracing initial_state"] running by blast
  moreover have "FinishPicaTracing initial_state
       = (None, initial_state\<lparr>error_log := error_log initial_state
                  @ [''FinishPicaTracing called even though tracing already running!'']\<rparr>)"
    using tracing_misuse_is_logged_no_op[of initial_state] idle by blast
  moreover have "error_log initial_state = []" by (simp add: initial_state_def)
  ultimately show ?thesis using running idle by (simp add: started)
qed

section \<open>Geometry dumper\<close>

lemma sint_of_small_nat:
  "m < 2 ^ 31 \<Longrightarrow> sint (word_of_nat m :: 32 word) = int m"
  by (simp add: signed_of_nat signed_take_bit_int_eq_self)

lemma smod_3_dvd: "0 \<le> k \<Longrightarrow> (0 = k smod 3) = (3 dvd (k::int))"
  by (auto simp: smod_int_alt_def sgn_if)

lemma AddVertices_snoc:
  "AddVertices (calls @ [(pos, t)]) d =
     (case AddVertices calls d of Inl e \<Rightarrow> Inl e | Inr d' \<Rightarrow> AddVertex pos t d')"
  by (induction calls arbitrary: d) (auto split: sum.splits)

text \<open>One call with a list topology, on a dumper that holds fewer than \<open>2 ^ 31 - 1\<close> vertices.\<close>

lemma AddVertex_list:
  assumes "t = TriangleTopology_List \<or> t = TriangleTopology_ListIndexed"
    and "length (vertices d) < 2 ^ 31 - 1"
  shows "AddVertex pos t d =
     Inr (d\<lparr>vertices := vertices d @ [pos],
            faces := faces d @
              (if 3 dvd (length (vertices d) + 1)
               then [(int (length (vertices d)) - 2, int (length (vertices d)) - 1,
                      int (length (vertices d)))]
               else [])\<rparr>)"
proof -
  have n: "sint (word_of_nat (Suc (length (vertices d))) :: 32 word) = int (length (vertices d)) + 1"
    using assms(2) by (subst sint_of_small_nat) simp_all
  have m: "(0 = (int (length (vertices d)) + 1) smod 3) = (3 dvd (length (vertices d) + 1))"
    by (subst smod_3_dvd) (simp_all, presburger)
  show ?thesis
    using assms(1) n m by (auto simp: AddVertex_def Let_def)
qed

lemma div3_step:
  "(Suc n) div 3 = (if 3 dvd Suc n then Suc (n div 3) else n div 3)"
  by presburger

lemma AddVertices_fresh:
  assumes "\<forall>c\<in>set calls. snd c = TriangleTopology_List \<or> snd c = TriangleTopology_ListIndexed"
    and "length calls < 2 ^ 31"
  shows "AddVertices calls new_GeometryDumper =
           Inr \<lparr>vertices = map fst calls,
                faces = map (\<lambda>k. (3 * int k, 3 * int k + 1, 3 * int k + 2))
                          [0..<length calls div 3]\<rparr>"
  using assms
proof (induction calls rule: rev_induct)
  case Nil
  then show ?case by (simp add: new_GeometryDumper_def)
next
  case (snoc c calls)
  obtain pos t where c: "c = (pos, t)" by (cases c)
  let ?n = "length calls"
  let ?face = "\<lambda>k. (3 * int k, 3 * int k + 1, 3 * int k + 2)"
  let ?d = "\<lparr>vertices = map fst calls, faces = map ?face [0..<?n div 3]\<rparr> :: 'a GeometryDumper"
  have IH: "AddVertices calls new_GeometryDumper = Inr ?d"
    using snoc by simp
  have t: "t = TriangleTopology_List \<or> t = TriangleTopology_ListIndexed"
    using snoc.prems(1) c by simp
  have len: "length (vertices ?d) < 2 ^ 31 - 1" using snoc.prems(2) by simp
  have face: "(int ?n - 2, int ?n - 1, int ?n) = ?face (?n div 3)" if "3 dvd Suc ?n"
  proof -
    from that obtain k where "Suc ?n = 3 * k" by (rule dvdE)
    then have k: "?n = 3 * (k - 1) + 2" "?n div 3 = k - 1" by presburger+
    show ?thesis unfolding k(2) by (subst k(1), subst k(1), subst k(1)) simp
  qed
  have "AddVertices (calls @ [c]) new_GeometryDumper = AddVertex pos t ?d"
    unfolding c AddVertices_snoc IH by simp
  also have "\<dots> = Inr \<lparr>vertices = map fst (calls @ [c]),
                         faces = map ?face [0..<length (calls @ [c]) div 3]\<rparr>"
    unfolding AddVertex_list[OF t len]
    using face by (simp add: c div3_step)
  finally show ?case .
qed

text \<open>
  C10. \<open>n\<close> calls of \<open>AddVertex\<close> with topology \<open>List\<close> or \<open>ListIndexed\<close> on a fresh
  dumper, for \<open>n\<close> in the range of the \<open>int\<close> that holds the vertex count: the vertex
  list is the \<open>n\<close> positions and the face list has \<open>n div 3\<close> entries, the \<open>k\<close>-th being
  \<open>(3k, 3k+1, 3k+2)\<close>. A call appends a face exactly when it makes the vertex count a
  multiple of 3.
\<close>

theorem AddVertex_builds_triangle_list:
  fixes calls :: "(('f \<times> 'f \<times> 'f) \<times> TriangleTopology) list"
  assumes "\<forall>c\<in>set calls. snd c = TriangleTopology_List \<or> snd c = TriangleTopology_ListIndexed"
    and "length calls < 2 ^ 31"
  shows "AddVertices calls new_GeometryDumper =
           Inr \<lparr>vertices = map fst calls,
                faces = map (\<lambda>k. (3 * int k, 3 * int k + 1, 3 * int k + 2))
                          [0..<length calls div 3]\<rparr>
       \<and> (\<forall>m<length calls.
             AddVertices (take (Suc m) calls) new_GeometryDumper =
               Inr \<lparr>vertices = map fst (take (Suc m) calls),
                    faces = map (\<lambda>k. (3 * int k, 3 * int k + 1, 3 * int k + 2)) [0..<m div 3]
                            @ (if 3 dvd Suc m then [(int m - 2, int m - 1, int m)] else [])\<rparr>)"
proof (intro conjI allI impI)
  show "AddVertices calls new_GeometryDumper =
           Inr \<lparr>vertices = map fst calls,
                faces = map (\<lambda>k. (3 * int k, 3 * int k + 1, 3 * int k + 2))
                          [0..<length calls div 3]\<rparr>"
    using assms by (rule AddVertices_fresh)
next
  fix m assume m: "m < length calls"
  let ?face = "\<lambda>k. (3 * int k, 3 * int k + 1, 3 * int k + 2)"
  obtain pos t where c: "calls ! m = (pos, t)" by (cases "calls ! m")
  have split: "take (Suc m) calls = take m calls @ [(pos, t)]"
    using m c by (simp add: take_Suc_conv_app_nth)
  have t: "t = TriangleTopology_List \<or> t = TriangleTopology_ListIndexed"
    using assms(1) m c by (metis nth_mem snd_conv)
  have pre: "\<forall>c\<in>set (take m calls). snd c = TriangleTopology_List \<or> snd c = TriangleTopology_ListIndexed"
    using assms(1) by (meson in_set_takeD)
  have len: "length (take m calls) < 2 ^ 31" using assms(2) m by simp
  let ?d = "\<lparr>vertices = map fst (take m calls), faces = map ?face [0..<m div 3]\<rparr> :: 'f GeometryDumper"
  have before: "AddVertices (take m calls) new_GeometryDumper = Inr ?d"
    using AddVertices_fresh[OF pre len] m by simp
  have room: "length (vertices ?d) < 2 ^ 31 - 1" using assms(2) m by simp
  show "AddVertices (take (Suc m) calls) new_GeometryDumper =
               Inr \<lparr>vertices = map fst (take (Suc m) calls),
                    faces = map ?face [0..<m div 3]
                            @ (if 3 dvd Suc m then [(int m - 2, int m - 1, int m)] else [])\<rparr>"
    unfolding split AddVertices_snoc before
    using AddVertex_list[OF t room, of pos] m by simp
qed

theorem AddVertex_builds_triangle_list_witness:
  "AddVertices
     [((0, 0, 0), TriangleTopology_List), ((1, 0, 0), TriangleTopology_ListIndexed),
      ((0, 1, 0), TriangleTopology_List), ((0, 0, 1), TriangleTopology_List)]
     (new_GeometryDumper :: int GeometryDumper)
   = Inr \<lparr>vertices = [(0, 0, 0), (1, 0, 0), (0, 1, 0), (0, 0, 1)], faces = [(0, 1, 2)]\<rparr>"
proof -
  let ?calls = "[((0, 0, 0), TriangleTopology_List), ((1, 0, 0), TriangleTopology_ListIndexed),
      ((0, 1, 0), TriangleTopology_List), ((0, 0, 1), TriangleTopology_List)]
      :: ((int \<times> int \<times> int) \<times> TriangleTopology) list"
  have a: "\<forall>c\<in>set ?calls. snd c = TriangleTopology_List \<or> snd c = TriangleTopology_ListIndexed"
    by simp
  have b: "length ?calls < 2 ^ 31" by simp
  have "[0..<length ?calls div 3] = [0]" by simp
  then show ?thesis
    using AddVertex_builds_triangle_list[OF a b, THEN conjunct1] by simp
qed

section \<open>Modification ticks\<close>

lemma tick_mono_step:
  "modification_tick (surfaces sid) \<le> modification_tick (MarkAsModified tick v surfaces sid)"
  by (simp add: MarkAsModified_def SurfaceBase_MarkAsModified_def)

lemma tick_mono_calls:
  "modification_tick (surfaces sid) \<le> modification_tick (MarkAsModified_calls calls surfaces sid)"
proof (induction calls arbitrary: surfaces)
  case Nil
  then show ?case by simp
next
  case (Cons c calls)
  obtain v tick where c: "c = (v, tick)" by (cases c)
  have "modification_tick (surfaces sid) \<le> modification_tick (MarkAsModified tick v surfaces sid)"
    by (rule tick_mono_step)
  also have "\<dots> \<le> modification_tick (MarkAsModified_calls calls (MarkAsModified tick v surfaces) sid)"
    by (rule Cons.IH)
  finally show ?case by (simp add: c)
qed

text \<open>
  C4. No sequence of \<open>MarkAsModified\<close> calls, through whichever Views, lowers the tick
  recorded by a surface. For two Views of one surface whose recorded tick is not beyond
  the ticks written, writing \<open>t1 \<le> t2\<close> leaves \<open>max t1 t2\<close>, in either order.
\<close>

theorem modification_tick_monotone:
  assumes "surface v1 = surface v2" and "t1 \<le> t2"
    and "modification_tick (surfaces (surface v1)) \<le> t2"
  shows "modification_tick (MarkAsModified t2 v2 (MarkAsModified t1 v1 surfaces) (surface v1))
           = max t1 t2
       \<and> modification_tick (MarkAsModified t1 v1 (MarkAsModified t2 v2 surfaces) (surface v1))
           = max t1 t2
       \<and> (\<forall>calls sid. modification_tick (surfaces sid)
             \<le> modification_tick (MarkAsModified_calls calls surfaces sid))"
  using assms
  by (simp add: MarkAsModified_def SurfaceBase_MarkAsModified_def tick_mono_calls max_def)

theorem modification_tick_monotone_witness:
  "surface sample_view = surface (sample_view\<lparr>base_level := 1\<rparr>) \<and> (3::u64) \<le> 5
   \<and> modification_tick ((\<lambda>sid. \<lparr>modification_tick = 0\<rparr>) (surface sample_view)) \<le> 5
   \<and> modification_tick
        (MarkAsModified 5 (sample_view\<lparr>base_level := 1\<rparr>)
           (MarkAsModified 3 sample_view (\<lambda>sid. \<lparr>modification_tick = 0\<rparr>)) 0) = 5
   \<and> modification_tick
        (MarkAsModified 3 sample_view
           (MarkAsModified 5 (sample_view\<lparr>base_level := 1\<rparr>) (\<lambda>sid. \<lparr>modification_tick = 0\<rparr>)) 0) = 5"
proof -
  have a: "surface sample_view = surface (sample_view\<lparr>base_level := 1\<rparr>)" by simp
  have b: "(3::u64) \<le> 5" by simp
  have c: "modification_tick ((\<lambda>sid. \<lparr>modification_tick = 0\<rparr>) (surface sample_view)) \<le> 5"
    by simp
  have z: "surface sample_view = 0" by (simp add: sample_view_def)
  show ?thesis
    using modification_tick_monotone[OF a b c] a b c by (simp add: z)
qed

section \<open>Swizzle keys and the cache of sub-objects\<close>

lemma fits_8: "(a :: u32) < 256 \<Longrightarrow> take_bit 8 a = a"
  using less_mask_eq[of a 8] by (simp add: take_bit_eq_mask)

lemma key_bytes_take_bit:
  fixes a b c d :: u32
  shows "take_bit 8 (drop_bit 24 ((push_bit 24 (take_bit 8 a) OR push_bit 16 (take_bit 8 b)
            OR push_bit 8 (take_bit 8 c)) OR take_bit 8 d)) = take_bit 8 a"
    and "take_bit 8 (drop_bit 16 ((push_bit 24 (take_bit 8 a) OR push_bit 16 (take_bit 8 b)
            OR push_bit 8 (take_bit 8 c)) OR take_bit 8 d)) = take_bit 8 b"
    and "take_bit 8 (drop_bit 8 ((push_bit 24 (take_bit 8 a) OR push_bit 16 (take_bit 8 b)
            OR push_bit 8 (take_bit 8 c)) OR take_bit 8 d)) = take_bit 8 c"
    and "take_bit 8 ((push_bit 24 (take_bit 8 a) OR push_bit 16 (take_bit 8 b)
            OR push_bit 8 (take_bit 8 c)) OR take_bit 8 d) = take_bit 8 d"
  by (rule bit_eqI; auto simp: bit_simps)+

text \<open>The four bytes of the key, from the top, are the four selectors.\<close>

lemma EncodeSwizzle_bytes:
  assumes "cast x < 256" "cast y < 256" "cast z < 256" "cast w < 256"
  shows "take_bit 8 (drop_bit 24 (EncodeSwizzle cast x y z w)) = cast x"
    and "take_bit 8 (drop_bit 16 (EncodeSwizzle cast x y z w)) = cast y"
    and "take_bit 8 (drop_bit 8 (EncodeSwizzle cast x y z w)) = cast z"
    and "take_bit 8 (EncodeSwizzle cast x y z w) = cast w"
  using key_bytes_take_bit[of "cast x" "cast y" "cast z" "cast w"] assms
  unfolding EncodeSwizzle_def by (simp_all add: fits_8)

lemma EncodeSwizzle_eq_iff:
  assumes "\<forall>s. cast s < 256"
  shows "(EncodeSwizzle cast x y z w = EncodeSwizzle cast x' y' z' w')
         = (cast x = cast x' \<and> cast y = cast y' \<and> cast z = cast z' \<and> cast w = cast w')"
proof
  assume eq: "EncodeSwizzle cast x y z w = EncodeSwizzle cast x' y' z' w'"
  have "take_bit 8 (drop_bit 24 (EncodeSwizzle cast x y z w))
          = take_bit 8 (drop_bit 24 (EncodeSwizzle cast x' y' z' w'))"
       "take_bit 8 (drop_bit 16 (EncodeSwizzle cast x y z w))
          = take_bit 8 (drop_bit 16 (EncodeSwizzle cast x' y' z' w'))"
       "take_bit 8 (drop_bit 8 (EncodeSwizzle cast x y z w))
          = take_bit 8 (drop_bit 8 (EncodeSwizzle cast x' y' z' w'))"
       "take_bit 8 (EncodeSwizzle cast x y z w) = take_bit 8 (EncodeSwizzle cast x' y' z' w')"
    unfolding eq by simp_all
  then show "cast x = cast x' \<and> cast y = cast y' \<and> cast z = cast z' \<and> cast w = cast w'"
    using assms by (simp add: EncodeSwizzle_bytes)
next
  assume "cast x = cast x' \<and> cast y = cast y' \<and> cast z = cast z' \<and> cast w = cast w'"
  then show "EncodeSwizzle cast x y z w = EncodeSwizzle cast x' y' z' w'"
    by (simp add: EncodeSwizzle_def)
qed

lemma GetHandle_cached:
  "view_cache (snd (snd (GetHandle cast x y z w st))) (EncodeSwizzle cast x y z w)
     = Some (fst (GetHandle cast x y z w st))"
  by (cases st) (auto simp: GetHandle_def Let_def split: option.splits)

lemma GetHandle_keeps:
  "view_cache (snd st) k = Some h \<Longrightarrow>
     view_cache (snd (snd (GetHandle cast x y z w st))) k = Some h"
  by (cases st) (auto simp: GetHandle_def Let_def split: option.splits)

lemma GetHandle_twice:
  "GetHandle cast x y z w (snd (GetHandle cast x y z w st)) = GetHandle cast x y z w st"
  by (cases st) (auto simp: GetHandle_def Let_def split: option.splits)

lemma GetHandle_constructs:
  "length (fst (snd (GetHandle cast x y z w st))) =
     length (fst st) + (if view_cache (snd st) (EncodeSwizzle cast x y z w) = None then 1 else 0)"
  by (cases st) (auto simp: GetHandle_def Let_def split: option.splits)

lemma cache_inv_empty: "view_cache v = Map.empty \<Longrightarrow> cache_inv (device, v)"
  by (simp add: cache_inv_def)

lemma GetHandle_inv:
  "cache_inv st \<Longrightarrow> cache_inv (snd (GetHandle cast x y z w st))"
  unfolding cache_inv_def
  by (cases st) (auto simp: GetHandle_def Let_def less_Suc_eq split: option.splits if_splits)

lemma GetHandle_distinct:
  assumes "cache_inv st"
    and "EncodeSwizzle cast x y z w \<noteq> EncodeSwizzle cast x' y' z' w'"
  shows "fst (GetHandle cast x y z w st)
          \<noteq> fst (GetHandle cast x' y' z' w' (snd (GetHandle cast x y z w st)))"
proof -
  let ?st1 = "snd (GetHandle cast x y z w st)"
  let ?st2 = "snd (GetHandle cast x' y' z' w' ?st1)"
  have inv2: "cache_inv ?st2" using assms(1) by (intro GetHandle_inv)
  have a: "view_cache (snd ?st2) (EncodeSwizzle cast x y z w) = Some (fst (GetHandle cast x y z w st))"
    by (intro GetHandle_keeps GetHandle_cached)
  have b: "view_cache (snd ?st2) (EncodeSwizzle cast x' y' z' w')
            = Some (fst (GetHandle cast x' y' z' w' ?st1))"
    by (rule GetHandle_cached)
  show ?thesis
  proof
    assume "fst (GetHandle cast x y z w st) = fst (GetHandle cast x' y' z' w' ?st1)"
    with a b inv2 have "EncodeSwizzle cast x y z w = EncodeSwizzle cast x' y' z' w'"
      unfolding cache_inv_def by metis
    with assms(2) show False by simp
  qed
qed

text \<open>
  C6. With selectors that fit in 8 bits, the four bytes of the key \<open>EncodeSwizzle\<close>
  packs are the four selectors, from the top byte down, and two keys are equal exactly
  when the four selectors are. A second \<open>GetHandle\<close> with the same selectors is a cache
  hit: it returns the same handle and constructs nothing, so the two calls construct
  one sub-object when the key was not cached and none when it was. Calls with different
  selectors return different handles, each cached under its own key in the one View.
\<close>

theorem swizzle_key_is_faithful:
  fixes static_cast_u32 :: "SwizzleSource \<Rightarrow> u32"
  assumes fits: "\<forall>s. static_cast_u32 s < 256"
    and inv: "cache_inv st"
  shows "take_bit 8 (drop_bit 24 (EncodeSwizzle static_cast_u32 x y z w)) = static_cast_u32 x
       \<and> take_bit 8 (drop_bit 16 (EncodeSwizzle static_cast_u32 x y z w)) = static_cast_u32 y
       \<and> take_bit 8 (drop_bit 8 (EncodeSwizzle static_cast_u32 x y z w)) = static_cast_u32 z
       \<and> take_bit 8 (EncodeSwizzle static_cast_u32 x y z w) = static_cast_u32 w
       \<and> ((EncodeSwizzle static_cast_u32 x y z w = EncodeSwizzle static_cast_u32 x' y' z' w')
            = (static_cast_u32 x = static_cast_u32 x' \<and> static_cast_u32 y = static_cast_u32 y'
               \<and> static_cast_u32 z = static_cast_u32 z' \<and> static_cast_u32 w = static_cast_u32 w'))
       \<and> GetHandle static_cast_u32 x y z w (snd (GetHandle static_cast_u32 x y z w st))
            = GetHandle static_cast_u32 x y z w st
       \<and> length (fst (snd (GetHandle static_cast_u32 x y z w st)))
            = length (fst st)
              + (if view_cache (snd st) (EncodeSwizzle static_cast_u32 x y z w) = None then 1 else 0)
       \<and> ((static_cast_u32 x, static_cast_u32 y, static_cast_u32 z, static_cast_u32 w)
              \<noteq> (static_cast_u32 x', static_cast_u32 y', static_cast_u32 z', static_cast_u32 w')
            \<longrightarrow> fst (GetHandle static_cast_u32 x y z w st)
                  \<noteq> fst (GetHandle static_cast_u32 x' y' z' w'
                           (snd (GetHandle static_cast_u32 x y z w st)))
                \<and> view_cache (snd (snd (GetHandle static_cast_u32 x' y' z' w'
                                          (snd (GetHandle static_cast_u32 x y z w st)))))
                     (EncodeSwizzle static_cast_u32 x y z w)
                   = Some (fst (GetHandle static_cast_u32 x y z w st))
                \<and> view_cache (snd (snd (GetHandle static_cast_u32 x' y' z' w'
                                          (snd (GetHandle static_cast_u32 x y z w st)))))
                     (EncodeSwizzle static_cast_u32 x' y' z' w')
                   = Some (fst (GetHandle static_cast_u32 x' y' z' w'
                                  (snd (GetHandle static_cast_u32 x y z w st)))))"
proof (intro conjI impI)
  show "take_bit 8 (drop_bit 24 (EncodeSwizzle static_cast_u32 x y z w)) = static_cast_u32 x"
    "take_bit 8 (drop_bit 16 (EncodeSwizzle static_cast_u32 x y z w)) = static_cast_u32 y"
    "take_bit 8 (drop_bit 8 (EncodeSwizzle static_cast_u32 x y z w)) = static_cast_u32 z"
    "take_bit 8 (EncodeSwizzle static_cast_u32 x y z w) = static_cast_u32 w"
    using fits by (simp_all add: EncodeSwizzle_bytes)
next
  show "(EncodeSwizzle static_cast_u32 x y z w = EncodeSwizzle static_cast_u32 x' y' z' w')
            = (static_cast_u32 x = static_cast_u32 x' \<and> static_cast_u32 y = static_cast_u32 y'
               \<and> static_cast_u32 z = static_cast_u32 z' \<and> static_cast_u32 w = static_cast_u32 w')"
    using fits by (rule EncodeSwizzle_eq_iff)
next
  show "GetHandle static_cast_u32 x y z w (snd (GetHandle static_cast_u32 x y z w st))
            = GetHandle static_cast_u32 x y z w st"
    by (rule GetHandle_twice)
next
  show "length (fst (snd (GetHandle static_cast_u32 x y z w st)))
            = length (fst st)
              + (if view_cache (snd st) (EncodeSwizzle static_cast_u32 x y z w) = None then 1 else 0)"
    by (rule GetHandle_constructs)
next
  assume "(static_cast_u32 x, static_cast_u32 y, static_cast_u32 z, static_cast_u32 w)
              \<noteq> (static_cast_u32 x', static_cast_u32 y', static_cast_u32 z', static_cast_u32 w')"
  then have "EncodeSwizzle static_cast_u32 x y z w \<noteq> EncodeSwizzle static_cast_u32 x' y' z' w'"
    using EncodeSwizzle_eq_iff[OF fits, of x y z w x' y' z' w'] by simp
  with inv show "fst (GetHandle static_cast_u32 x y z w st)
                  \<noteq> fst (GetHandle static_cast_u32 x' y' z' w'
                           (snd (GetHandle static_cast_u32 x y z w st)))"
    by (rule GetHandle_distinct)
next
  show "view_cache (snd (snd (GetHandle static_cast_u32 x' y' z' w'
                                          (snd (GetHandle static_cast_u32 x y z w st)))))
                     (EncodeSwizzle static_cast_u32 x y z w)
                   = Some (fst (GetHandle static_cast_u32 x y z w st))"
    by (intro GetHandle_keeps GetHandle_cached)
next
  show "view_cache (snd (snd (GetHandle static_cast_u32 x' y' z' w'
                                          (snd (GetHandle static_cast_u32 x y z w st)))))
                     (EncodeSwizzle static_cast_u32 x' y' z' w')
                   = Some (fst (GetHandle static_cast_u32 x' y' z' w'
                                  (snd (GetHandle static_cast_u32 x y z w st))))"
    by (rule GetHandle_cached)
qed

lemma sample_cast_fits: "\<forall>s. sample_cast s < 256"
proof
  fix s show "sample_cast s < 256" by (cases s) simp_all
qed

lemma sample_keys:
  "EncodeSwizzle sample_cast SwizzleSource_R SwizzleSource_G SwizzleSource_B SwizzleSource_A = 0x02030405"
  "EncodeSwizzle sample_cast SwizzleSource_B SwizzleSource_G SwizzleSource_R SwizzleSource_A = 0x04030205"
  by (simp_all add: EncodeSwizzle_def)

theorem swizzle_key_is_faithful_witness:
  "(\<forall>s. sample_cast s < 256) \<and> cache_inv ([], sample_view)
   \<and> EncodeSwizzle sample_cast SwizzleSource_R SwizzleSource_G SwizzleSource_B SwizzleSource_A
       = 0x02030405
   \<and> EncodeSwizzle sample_cast SwizzleSource_B SwizzleSource_G SwizzleSource_R SwizzleSource_A
       = 0x04030205
   \<and> fst (GetHandle sample_cast SwizzleSource_R SwizzleSource_G SwizzleSource_B SwizzleSource_A
            ([], sample_view)) = 0
   \<and> GetHandle sample_cast SwizzleSource_R SwizzleSource_G SwizzleSource_B SwizzleSource_A
        (snd (GetHandle sample_cast SwizzleSource_R SwizzleSource_G SwizzleSource_B SwizzleSource_A
                ([], sample_view)))
       = GetHandle sample_cast SwizzleSource_R SwizzleSource_G SwizzleSource_B SwizzleSource_A
           ([], sample_view)
   \<and> length (fst (snd (GetHandle sample_cast SwizzleSource_R SwizzleSource_G SwizzleSource_B
                          SwizzleSource_A ([], sample_view)))) = 1
   \<and> fst (GetHandle sample_cast SwizzleSource_B SwizzleSource_G SwizzleSource_R SwizzleSource_A
            (snd (GetHandle sample_cast SwizzleSource_R SwizzleSource_G SwizzleSource_B
                    SwizzleSource_A ([], sample_view)))) = 1"
proof -
  have inv: "cache_inv ([], sample_view)"
    by (rule cache_inv_empty) (simp add: sample_view_def)
  have first: "GetHandle sample_cast SwizzleSource_R SwizzleSource_G SwizzleSource_B SwizzleSource_A
      ([], sample_view)
    = (0, [\<lparr>components = (SwizzleSource_R, SwizzleSource_G, SwizzleSource_B, SwizzleSource_A),
            view_base_layer = 0, view_num_layers = 1, view_base_level = 0, view_num_levels = 1\<rparr>],
       sample_view\<lparr>view_cache := [0x02030405 \<mapsto> 0]\<rparr>)"
    by (simp add: GetHandle_def sample_keys sample_view_def)
  have second: "fst (GetHandle sample_cast SwizzleSource_B SwizzleSource_G SwizzleSource_R SwizzleSource_A
            (snd (GetHandle sample_cast SwizzleSource_R SwizzleSource_G SwizzleSource_B
                    SwizzleSource_A ([], sample_view)))) = 1"
    unfolding first by (simp add: GetHandle_def sample_keys sample_view_def)
  note inst = swizzle_key_is_faithful[OF sample_cast_fits inv,
      of SwizzleSource_R SwizzleSource_G SwizzleSource_B SwizzleSource_A
         SwizzleSource_B SwizzleSource_G SwizzleSource_R SwizzleSource_A]
  have twice: "GetHandle sample_cast SwizzleSource_R SwizzleSource_G SwizzleSource_B SwizzleSource_A
        (snd (GetHandle sample_cast SwizzleSource_R SwizzleSource_G SwizzleSource_B SwizzleSource_A
                ([], sample_view)))
       = GetHandle sample_cast SwizzleSource_R SwizzleSource_G SwizzleSource_B SwizzleSource_A
           ([], sample_view)"
    using inst by blast
  show ?thesis
    using sample_cast_fits inv sample_keys twice second by (simp add: first)
qed

text \<open>
  C9. The zero-argument \<open>GetHandle\<close> is the four-argument one at \<open>(R, G, B, A)\<close>,
  whatever the four-argument overload does; with the overload as the spec describes it,
  the sub-object it constructs on a miss maps every channel to itself.
\<close>

theorem GetHandle_default_is_identity_remap:
  "GetHandle_default GetHandle4 st
     = GetHandle4 SwizzleSource_R SwizzleSource_G SwizzleSource_B SwizzleSource_A st
   \<and> GetHandle_default (GetHandle static_cast_u32) st'
     = GetHandle static_cast_u32 SwizzleSource_R SwizzleSource_G SwizzleSource_B SwizzleSource_A st'
   \<and> (view_cache (snd st')
         (EncodeSwizzle static_cast_u32 SwizzleSource_R SwizzleSource_G SwizzleSource_B SwizzleSource_A)
         = None \<longrightarrow>
       components (fst (snd (GetHandle_default (GetHandle static_cast_u32) st'))
                     ! fst (GetHandle_default (GetHandle static_cast_u32) st'))
         = (SwizzleSource_R, SwizzleSource_G, SwizzleSource_B, SwizzleSource_A))"
  by (cases st') (auto simp: GetHandle_default_def GetHandle_def Let_def split: option.splits)

theorem GetHandle_default_is_identity_remap_witness:
  "GetHandle_default (GetHandle sample_cast) ([], sample_view)
    = (0, [\<lparr>components = (SwizzleSource_R, SwizzleSource_G, SwizzleSource_B, SwizzleSource_A),
            view_base_layer = 0, view_num_layers = 1, view_base_level = 0, view_num_levels = 1\<rparr>],
       sample_view\<lparr>view_cache := [0x02030405 \<mapsto> 0]\<rparr>)"
proof -
  have "GetHandle sample_cast SwizzleSource_R SwizzleSource_G SwizzleSource_B SwizzleSource_A
      ([], sample_view)
    = (0, [\<lparr>components = (SwizzleSource_R, SwizzleSource_G, SwizzleSource_B, SwizzleSource_A),
            view_base_layer = 0, view_num_layers = 1, view_base_level = 0, view_num_levels = 1\<rparr>],
       sample_view\<lparr>view_cache := [0x02030405 \<mapsto> 0]\<rparr>)"
    by (simp add: GetHandle_def sample_keys sample_view_def)
  then show ?thesis
    using GetHandle_default_is_identity_remap[of "GetHandle sample_cast" "([], sample_view)"]
    by simp
qed

section \<open>Header layout\<close>

lemma align_up_1: "align_up (Suc 0) n = n"
  by (simp add: align_up_def)

lemma min_1_sizeof: "min (Suc 0) (sizeof ty) = Suc 0"
  by (cases ty) simp_all

lemma end_of_fields_packed:
  "end_of_fields (Suc 0) off members = off + (\<Sum>(name, ty)\<leftarrow>members. sizeof ty)"
  by (induction members arbitrary: off) (auto simp: align_up_1 min_1_sizeof)

lemma struct_alignment_packed: "struct_alignment (Suc 0) members = Suc 0"
  unfolding struct_alignment_def
  by (induction members) (auto simp: min_1_sizeof)

lemma sizeof_struct_packed:
  "sizeof_struct (Suc 0) members = (\<Sum>(name, ty)\<leftarrow>members. sizeof ty)"
  by (simp add: sizeof_struct_def struct_alignment_packed align_up_1 end_of_fields_packed)

text \<open>Without \<open>#pragma pack(1)\<close> the layout pads: a byte before a \<open>u32\<close> takes 8 bytes.\<close>

lemma layout_pads_without_pack: "sizeof_struct 4 [(''a'', U8), (''b'', U32)] = 8"
  by (simp add: sizeof_struct_def struct_alignment_def align_up_def)

text \<open>
  C7. Under \<open>#pragma pack(1)\<close> the three headers take 8, 28 and 64 bytes (the values
  of the three \<open>static_assert\<close>s), every member starts where the one before it ends, so
  each size is the sum of the member sizes, and the magic words are the bytes of
  "DVLB", "DVLP" and "DVLE" with the lowest byte first.
\<close>

theorem shader_dump_headers_are_packed:
  "sizeof_struct 1 DVLBHeader = 8
   \<and> field_offsets 1 0 DVLBHeader = [(''magic_word'', 0), (''num_programs'', 4)]
   \<and> le_bytes 4 (unat DVLBHeader_MAGIC_WORD) = ascii ''DVLB''
   \<and> struct_bytes DVLBHeader [unat DVLBHeader_MAGIC_WORD, num_programs]
       = ascii ''DVLB'' @ le_bytes 4 num_programs
   \<and> sizeof_struct 1 DVLPHeader = 28
   \<and> field_offsets 1 0 DVLPHeader =
        [(''magic_word'', 0), (''version'', 4), (''binary_offset'', 8),
         (''binary_size_words'', 12), (''swizzle_patterns_offset'', 16),
         (''swizzle_patterns_num_entries'', 20), (''unk2'', 24)]
   \<and> le_bytes 4 (unat DVLPHeader_MAGIC_WORD) = ascii ''DVLP''
   \<and> sizeof_struct 1 DVLEHeader = 64
   \<and> field_offsets 1 0 DVLEHeader =
        [(''magic_word'', 0), (''pad1'', 4), (''type'', 6), (''pad2'', 7),
         (''main_offset_words'', 8), (''endmain_offset_words'', 12),
         (''pad3'', 16), (''pad4'', 20),
         (''constant_table_offset'', 24), (''constant_table_size'', 28),
         (''label_table_offset'', 32), (''label_table_size'', 36),
         (''output_register_table_offset'', 40), (''output_register_table_size'', 44),
         (''uniform_table_offset'', 48), (''uniform_table_size'', 52),
         (''symbol_table_offset'', 56), (''symbol_table_size'', 60)]
   \<and> le_bytes 4 (unat DVLEHeader_MAGIC_WORD) = ascii ''DVLE''
   \<and> sizeof_struct 1 DVLBHeader = (\<Sum>(name, ty)\<leftarrow>DVLBHeader. sizeof ty)
   \<and> sizeof_struct 1 DVLPHeader = (\<Sum>(name, ty)\<leftarrow>DVLPHeader. sizeof ty)
   \<and> sizeof_struct 1 DVLEHeader = (\<Sum>(name, ty)\<leftarrow>DVLEHeader. sizeof ty)"
proof (intro conjI)
  show "sizeof_struct 1 DVLBHeader = 8" "sizeof_struct 1 DVLPHeader = 28"
       "sizeof_struct 1 DVLEHeader = 64"
    by (simp_all add: sizeof_struct_packed DVLBHeader_def DVLPHeader_def DVLEHeader_def)
next
  show "field_offsets 1 0 DVLBHeader = [(''magic_word'', 0), (''num_programs'', 4)]"
    by (simp add: DVLBHeader_def align_up_def)
next
  show "field_offsets 1 0 DVLPHeader =
        [(''magic_word'', 0), (''version'', 4), (''binary_offset'', 8),
         (''binary_size_words'', 12), (''swizzle_patterns_offset'', 16),
         (''swizzle_patterns_num_entries'', 20), (''unk2'', 24)]"
    by (simp add: DVLPHeader_def align_up_def)
next
  show "field_offsets 1 0 DVLEHeader =
        [(''magic_word'', 0), (''pad1'', 4), (''type'', 6), (''pad2'', 7),
         (''main_offset_words'', 8), (''endmain_offset_words'', 12),
         (''pad3'', 16), (''pad4'', 20),
         (''constant_table_offset'', 24), (''constant_table_size'', 28),
         (''label_table_offset'', 32), (''label_table_size'', 36),
         (''output_register_table_offset'', 40), (''output_register_table_size'', 44),
         (''uniform_table_offset'', 48), (''uniform_table_size'', 52),
         (''symbol_table_offset'', 56), (''symbol_table_size'', 60)]"
    by (simp add: DVLEHeader_def align_up_def)
next
  show magic: "le_bytes 4 (unat DVLBHeader_MAGIC_WORD) = ascii ''DVLB''"
    by (simp add: le_bytes_def DVLBHeader_MAGIC_WORD_def ascii_def upt_rec)
  show "struct_bytes DVLBHeader [unat DVLBHeader_MAGIC_WORD, num_programs]
       = ascii ''DVLB'' @ le_bytes 4 num_programs"
    unfolding magic[symmetric] by (simp add: struct_bytes_def DVLBHeader_def)
  show "le_bytes 4 (unat DVLPHeader_MAGIC_WORD) = ascii ''DVLP''"
    by (simp add: le_bytes_def DVLPHeader_MAGIC_WORD_def ascii_def upt_rec)
  show "le_bytes 4 (unat DVLEHeader_MAGIC_WORD) = ascii ''DVLE''"
    by (simp add: le_bytes_def DVLEHeader_MAGIC_WORD_def ascii_def upt_rec)
next
  show "sizeof_struct 1 DVLBHeader = (\<Sum>(name, ty)\<leftarrow>DVLBHeader. sizeof ty)"
       "sizeof_struct 1 DVLPHeader = (\<Sum>(name, ty)\<leftarrow>DVLPHeader. sizeof ty)"
       "sizeof_struct 1 DVLEHeader = (\<Sum>(name, ty)\<leftarrow>DVLEHeader. sizeof ty)"
    by (simp_all only: One_nat_def sizeof_struct_packed)
qed

section \<open>The dumps are disabled\<close>

text \<open>What follows the \<open>return\<close> in \<open>DumpShader\<close> would count the dump.\<close>

lemma add_semantic_keeps:
  "shader_dump_index (snd (add_semantic i semantic acc)) = shader_dump_index (snd acc)
   \<and> texture_dump_index (snd (add_semantic i semantic acc)) = texture_dump_index (snd acc)
   \<and> files (snd (add_semantic i semantic acc)) = files (snd acc)"
  by (auto simp: add_semantic_def Let_def ERROR_LOG_def split: option.splits prod.splits)

lemma fold_add_semantic_keeps:
  "shader_dump_index (snd (fold (add_semantic i) sems acc)) = shader_dump_index (snd acc)"
  by (induction sems arbitrary: acc) (simp_all add: add_semantic_keeps)

lemma build_keeps_index:
  "shader_dump_index (snd (build_output_info_table output_attributes s)) = shader_dump_index s"
proof -
  have "shader_dump_index (snd (fold (\<lambda>i. fold (add_semantic i) (f i)) is acc)) = shader_dump_index (snd acc)"
    for f "is" acc
    by (induction "is" arbitrary: acc) (simp_all add: fold_add_semantic_keeps)
  then show ?thesis unfolding build_output_info_table_def by (simp only: snd_conv)
qed

lemma write_shader_dump_counts:
  "shader_dump_index (write_shader_dump bd bs sd ss mo oa s) = shader_dump_index s + 1"
  by (simp add: write_shader_dump_def Let_def build_keeps_index)

text \<open>
  C8. For all arguments and every program state, \<open>DumpShader\<close> and \<open>DumpTexture\<close>
  return with the state as it was: no file, no counter, no log line and no tracer
  state changes.
\<close>

theorem dumps_are_disabled:
  "DumpShader binary_data binary_size swizzle_data swizzle_size main_offset output_attributes s = s
   \<and> DumpTexture HAVE_PNG png texture_config data s = s"
  by (simp add: DumpShader_def DumpTexture_def)

end
